theory Spec2Isabelle
  imports Complex_Main
begin

section \<open>JavaScript numbers\<close>

text \<open>
  The script computes with JavaScript numbers. A number is modelled as an exact rational
  or one of the three special values of IEEE 754 arithmetic. The special values follow
  the rules of the language (\<open>0/0\<close> is \<open>NaN\<close>, \<open>Infinity - Infinity\<close> is \<open>NaN\<close>,
  \<open>NaN\<close> is absorbing). Finite arithmetic is exact: the rounding error, the overflow of
  binary64 and the sign of zero are not part of the model.
\<close>

datatype number = Fin rat | PosInfinity | NegInfinity | NaN

fun isFinite :: "number \<Rightarrow> bool" where
  "isFinite (Fin _) = True"
| "isFinite _ = False"

text \<open>\<open>a + b\<close>\<close>

fun js_add :: "number \<Rightarrow> number \<Rightarrow> number" where
  "js_add NaN _ = NaN"
| "js_add _ NaN = NaN"
| "js_add (Fin a) (Fin b) = Fin (a + b)"
| "js_add PosInfinity NegInfinity = NaN"
| "js_add NegInfinity PosInfinity = NaN"
| "js_add PosInfinity _ = PosInfinity"
| "js_add NegInfinity _ = NegInfinity"
| "js_add (Fin _) b = b"

text \<open>Unary minus, and \<open>a - b\<close>.\<close>

fun js_neg :: "number \<Rightarrow> number" where
  "js_neg (Fin a) = Fin (- a)"
| "js_neg PosInfinity = NegInfinity"
| "js_neg NegInfinity = PosInfinity"
| "js_neg NaN = NaN"

definition js_sub :: "number \<Rightarrow> number \<Rightarrow> number" where
  "js_sub a b = js_add a (js_neg b)"

text \<open>The sign of a number that is not \<open>NaN\<close>: \<open>-1\<close>, \<open>0\<close> or \<open>1\<close>.\<close>

fun js_sgn :: "number \<Rightarrow> int" where
  "js_sgn (Fin a) = (if a < 0 then - 1 else if a = 0 then 0 else 1)"
| "js_sgn PosInfinity = 1"
| "js_sgn NegInfinity = - 1"
| "js_sgn NaN = 0"

definition signed_infinity :: "int \<Rightarrow> number" where
  "signed_infinity s = (if s < 0 then NegInfinity else PosInfinity)"

text \<open>\<open>a * b\<close>\<close>

fun js_mul :: "number \<Rightarrow> number \<Rightarrow> number" where
  "js_mul NaN _ = NaN"
| "js_mul _ NaN = NaN"
| "js_mul (Fin a) (Fin b) = Fin (a * b)"
| "js_mul a b =
     (if js_sgn a = 0 \<or> js_sgn b = 0 then NaN else signed_infinity (js_sgn a * js_sgn b))"

text \<open>\<open>a / b\<close>; a zero divisor is the positive zero (an array length, a literal).\<close>

fun js_div :: "number \<Rightarrow> number \<Rightarrow> number" where
  "js_div NaN _ = NaN"
| "js_div _ NaN = NaN"
| "js_div (Fin a) (Fin b) =
     (if b = 0 then (if a = 0 then NaN else signed_infinity (js_sgn (Fin a)))
      else Fin (a / b))"
| "js_div (Fin a) _ = Fin 0"
| "js_div a (Fin b) = signed_infinity (js_sgn a * (if b < 0 then - 1 else 1))"
| "js_div _ _ = NaN"

text \<open>\<open>Math.round\<close>: the nearest integer, a half rounds towards \<open>+Infinity\<close>.\<close>

fun Math_round :: "number \<Rightarrow> number" where
  "Math_round (Fin a) = Fin (of_int \<lfloor>a + 1 / 2\<rfloor>)"
| "Math_round a = a"

text \<open>\<open>a < b\<close> on numbers: false as soon as one side is \<open>NaN\<close>.\<close>

fun js_less :: "number \<Rightarrow> number \<Rightarrow> bool" where
  "js_less NaN _ = False"
| "js_less _ NaN = False"
| "js_less (Fin a) (Fin b) = (a < b)"
| "js_less NegInfinity b = (b \<noteq> NegInfinity)"
| "js_less a PosInfinity = (a \<noteq> PosInfinity)"
| "js_less _ _ = False"

text \<open>
  \<open>Math.min(...xs)\<close> and \<open>Math.max(...xs)\<close>: \<open>NaN\<close> as soon as one argument is \<open>NaN\<close>,
  \<open>+Infinity\<close> and \<open>-Infinity\<close> on no argument.
\<close>

definition min2 :: "number \<Rightarrow> number \<Rightarrow> number" where
  "min2 a b = (if a = NaN \<or> b = NaN then NaN else if js_less b a then b else a)"

definition max2 :: "number \<Rightarrow> number \<Rightarrow> number" where
  "max2 a b = (if a = NaN \<or> b = NaN then NaN else if js_less a b then b else a)"

definition Math_min :: "number list \<Rightarrow> number" where
  "Math_min xs = foldl min2 PosInfinity xs"

definition Math_max :: "number list \<Rightarrow> number" where
  "Math_max xs = foldl max2 NegInfinity xs"

section \<open>Arrays\<close>

text \<open>
  \<open>xs[i]\<close> where the value is then used as a number: out of range the read gives
  \<open>undefined\<close>, which arithmetic converts to \<open>NaN\<close>.
\<close>

definition elem_at :: "number list \<Rightarrow> int \<Rightarrow> number" where
  "elem_at xs i = (if 0 \<le> i \<and> i < int (length xs) then xs ! nat i else NaN)"

text \<open>
  \<open>Array.prototype.sort\<close> with a comparator is a stable sort: \<open>a\<close> goes after \<open>b\<close>
  when \<open>cmp(a, b) > 0\<close>, and a result that is \<open>NaN\<close> counts as \<open>0\<close>. The model is the
  stable insertion sort. (With an inconsistent comparator the language leaves the order
  to the implementation; \<open>a - b\<close> is consistent on arrays without \<open>NaN\<close>.)
\<close>

fun insert_by :: "(number \<Rightarrow> number \<Rightarrow> number) \<Rightarrow> number \<Rightarrow> number list \<Rightarrow> number list" where
  "insert_by cmp x [] = [x]"
| "insert_by cmp x (y # ys) =
     (if js_less (Fin 0) (cmp x y) then y # insert_by cmp x ys else x # y # ys)"

definition sort_by :: "(number \<Rightarrow> number \<Rightarrow> number) \<Rightarrow> number list \<Rightarrow> number list" where
  "sort_by cmp xs = foldr (insert_by cmp) xs []"

section \<open>The statistics of performance.js\<close>

text \<open>
  The definitions of this and of the following sections follow
  \<open>bin/plugin/commands/performance.js\<close>, and keep its names.
\<close>

text \<open>\<open>WPRawPerformanceResults\<close>: the samples of one run of a test suite.\<close>

record WPRawPerformanceResults =
  load :: "number list"
  type :: "number list"
  focus :: "number list"
  inserterOpen :: "number list"
  inserterHover :: "number list"

text \<open>
  \<open>WPPerformanceResults\<close>: an object with thirteen keys. The type of the values is a
  parameter, since \<open>runTestSuite\<close> builds such an object of arrays before it maps
  \<open>median\<close> over it.
\<close>

record 'a WPPerformanceResults =
  load :: 'a
  type :: 'a
  minType :: 'a
  maxType :: 'a
  focus :: 'a
  minFocus :: 'a
  maxFocus :: 'a
  inserterOpen :: 'a
  minInserterOpen :: 'a
  maxInserterOpen :: 'a
  inserterHover :: 'a
  minInserterHover :: 'a
  maxInserterHover :: 'a

text \<open>\<open>average\<close> (line 64): \<open>array.reduce((a, b) => a + b, 0) / array.length\<close>\<close>

definition average :: "number list \<Rightarrow> number" where
  "average array = js_div (foldl js_add (Fin 0) array) (Fin (of_nat (length array)))"

text \<open>
  \<open>median\<close> (line 75): \<open>mid\<close> is \<open>Math.floor(array.length / 2)\<close>, \<open>numbers\<close> the sorted copy.
\<close>

definition median :: "number list \<Rightarrow> number" where
  "median array =
     (let mid = length array div 2;
          numbers = sort_by (\<lambda>a b. js_sub a b) array
      in if length array mod 2 \<noteq> 0
         then elem_at numbers (int mid)
         else js_div (js_add (elem_at numbers (int mid - 1)) (elem_at numbers (int mid))) (Fin 2))"

text \<open>\<open>formatTime\<close> (line 90): \<open>factor\<close> is \<open>Math.pow(10, 2)\<close>.\<close>

definition formatTime :: "number \<Rightarrow> number" where
  "formatTime n =
     (let factor = Fin (10 ^ 2)
      in js_div (Math_round (js_mul n factor)) factor)"

text \<open>\<open>curateResults\<close> (line 102).\<close>

definition curateResults :: "WPRawPerformanceResults \<Rightarrow> number WPPerformanceResults" where
  "curateResults results =
     \<lparr> load = average (WPRawPerformanceResults.load results),
       type = average (WPRawPerformanceResults.type results),
       minType = Math_min (WPRawPerformanceResults.type results),
       maxType = Math_max (WPRawPerformanceResults.type results),
       focus = average (WPRawPerformanceResults.focus results),
       minFocus = Math_min (WPRawPerformanceResults.focus results),
       maxFocus = Math_max (WPRawPerformanceResults.focus results),
       inserterOpen = average (WPRawPerformanceResults.inserterOpen results),
       minInserterOpen = Math_min (WPRawPerformanceResults.inserterOpen results),
       maxInserterOpen = Math_max (WPRawPerformanceResults.inserterOpen results),
       inserterHover = average (WPRawPerformanceResults.inserterHover results),
       minInserterHover = Math_min (WPRawPerformanceResults.inserterHover results),
       maxInserterHover = Math_max (WPRawPerformanceResults.inserterHover results) \<rparr>"

text \<open>lodash's \<open>mapValues\<close> on an object with these thirteen keys.\<close>

definition mapValues :: "'a WPPerformanceResults \<Rightarrow> ('a \<Rightarrow> 'b) \<Rightarrow> 'b WPPerformanceResults" where
  "mapValues r f =
     \<lparr> load = f (load r),
       type = f (type r),
       minType = f (minType r),
       maxType = f (maxType r),
       focus = f (focus r),
       minFocus = f (minFocus r),
       maxFocus = f (maxFocus r),
       inserterOpen = f (inserterOpen r),
       minInserterOpen = f (minInserterOpen r),
       maxInserterOpen = f (maxInserterOpen r),
       inserterHover = f (inserterHover r),
       minInserterHover = f (minInserterHover r),
       maxInserterHover = f (maxInserterHover r) \<rparr>"

section \<open>Objects\<close>

text \<open>
  A plain object is the list of its own properties in the order in which the language
  enumerates them (\<open>Object.keys\<close>, \<open>Object.entries\<close>, spread, \<open>JSON.stringify\<close>):
  the keys that are array indices first, in ascending numeric order, then the other keys
  in the order of their creation. An array index is the canonical decimal form of an
  integer below \<open>4294967295\<close>, which is \<open>2^32 - 1\<close>.
\<close>

type_synonym 'v obj = "(string \<times> 'v) list"

definition is_digit :: "char \<Rightarrow> bool" where
  "is_digit c = (c \<in> set ''0123456789'')"

definition decimal :: "string \<Rightarrow> nat" where
  "decimal s = foldl (\<lambda>n c. 10 * n + (of_char c - 48)) 0 s"

definition array_index :: "string \<Rightarrow> nat option" where
  "array_index k =
     (if k \<noteq> [] \<and> list_all is_digit k \<and> (k = ''0'' \<or> hd k \<noteq> CHR ''0'')
         \<and> decimal k < 4294967295
      then Some (decimal k) else None)"

definition obj_get :: "'v obj \<Rightarrow> string \<Rightarrow> 'v option" where
  "obj_get obj k = map_of obj k"

definition has_own :: "'v obj \<Rightarrow> string \<Rightarrow> bool" where
  "has_own obj k = (k \<in> set (map fst obj))"

fun update_key :: "string \<Rightarrow> 'v \<Rightarrow> 'v obj \<Rightarrow> 'v obj" where
  "update_key k v [] = []"
| "update_key k v ((k', v') # obj) =
     (if k' = k then (k, v) # obj else (k', v') # update_key k v obj)"

fun insert_index :: "nat \<Rightarrow> string \<Rightarrow> 'v \<Rightarrow> 'v obj \<Rightarrow> 'v obj" where
  "insert_index n k v [] = [(k, v)]"
| "insert_index n k v ((k', v') # obj) =
     (case array_index k' of
        Some m \<Rightarrow> if m < n then (k', v') # insert_index n k v obj else (k, v) # (k', v') # obj
      | None \<Rightarrow> (k, v) # (k', v') # obj)"

text \<open>
  Defining the own property \<open>k\<close>, as the object literal \<open>{ ...obj, [k]: v }\<close> does on the
  copy of \<open>obj\<close>: an existing key keeps its place, a new one is enumerated where the
  order above puts it.
\<close>

definition obj_set :: "'v obj \<Rightarrow> string \<Rightarrow> 'v \<Rightarrow> 'v obj" where
  "obj_set obj k v =
     (if has_own obj k then update_key k v obj
      else case array_index k of
             Some n \<Rightarrow> insert_index n k v obj
           | None \<Rightarrow> obj @ [(k, v)])"

text \<open>
  The assignment \<open>obj[k] = v\<close> on an object created by \<open>{}\<close>. It defines the own
  property, except for the key \<open>__proto__\<close>, which \<open>Object.prototype\<close> holds as an
  accessor: its setter receives the value and no own property is created.
\<close>

definition obj_assign :: "'v obj \<Rightarrow> string \<Rightarrow> 'v \<Rightarrow> 'v obj" where
  "obj_assign obj k v =
     (if k = ''__proto__'' \<and> \<not> has_own obj k then obj else obj_set obj k v)"

text \<open>\<open>{ ...x }\<close> where \<open>x\<close> may be \<open>undefined\<close>.\<close>

definition spread :: "'v obj option \<Rightarrow> 'v obj" where
  "spread x = (case x of None \<Rightarrow> [] | Some obj \<Rightarrow> obj)"

text \<open>The own keys and values of a \<open>WPPerformanceResults\<close>, in the order of the literal.\<close>

definition entries :: "'a WPPerformanceResults \<Rightarrow> 'a obj" where
  "entries r =
     [ (''load'', load r),
       (''type'', type r),
       (''minType'', minType r),
       (''maxType'', maxType r),
       (''focus'', focus r),
       (''minFocus'', minFocus r),
       (''maxFocus'', maxFocus r),
       (''inserterOpen'', inserterOpen r),
       (''minInserterOpen'', minInserterOpen r),
       (''maxInserterOpen'', maxInserterOpen r),
       (''inserterHover'', inserterHover r),
       (''minInserterHover'', minInserterHover r),
       (''maxInserterHover'', maxInserterHover r) ]"

section \<open>The outside world\<close>

text \<open>
  The script reaches the outside through \<open>git\<close>, the shell, the file system and the
  console. Each such call is recorded on a trace when it is issued. What the call
  returns, or that it throws, is decided by the environment from the calls issued so
  far: the environment is a parameter of every definition below. Logging (\<open>log\<close>) has
  no effect on the control flow and is left out.
\<close>

datatype json = JNull | JNumber rat | JString string | JObject "(string \<times> json) list"

datatype call =
    AskForConfirmation string
  | GitClone string
  | GitCheckoutRemoteBranch string string
  | GitDiscardLocalChanges string
  | GetRandomTemporaryPath
  | RunShellScript string "string option"
  | ReadJSONFile string
  | WriteFileSync string json
  | ConsoleTable "string obj obj"

text \<open>
  An exception: the external call that threw, or the \<open>TypeError\<close> of
  \<open>Object.entries(undefined)\<close>.
\<close>

datatype error = Failed call | TypeError

text \<open>
  The state: the trace of external calls and the variable \<open>results\<close> of
  \<open>runPerformanceTests\<close>, which the branch loop reassigns.
\<close>

record state =
  trace :: "call list"
  results :: "number WPPerformanceResults obj obj"

text \<open>
  The environment. The first five fields are constants and functions of Node and of
  \<open>../config\<close> that the script uses: \<open>config.gitRepositoryURL\<close>, \<open>__dirname\<close>,
  \<open>path.join\<close>, \<open>path.resolve\<close> and the conversion of a number to a string.
  The others answer an external call, given the trace so far: \<open>None\<close> or \<open>False\<close>
  is a call that throws. \<open>readJSONFile\<close> has one field for each type at which the
  script reads a file: the raw results, as \<open>WPRawPerformanceResults\<close> declares them,
  and the object of \<open>.wp-env.json\<close>.
\<close>

record env =
  gitRepositoryURL :: string
  dirname :: string
  path_join :: "string \<Rightarrow> string \<Rightarrow> string"
  path_resolve :: "string \<Rightarrow> string \<Rightarrow> string \<Rightarrow> string"
  toString :: "number \<Rightarrow> string"
  confirmed :: "call list \<Rightarrow> string \<Rightarrow> bool"
  cloned :: "call list \<Rightarrow> string \<Rightarrow> string option"
  checkedOut :: "call list \<Rightarrow> string \<Rightarrow> string \<Rightarrow> bool"
  discarded :: "call list \<Rightarrow> string \<Rightarrow> bool"
  temporaryPath :: "call list \<Rightarrow> string option"
  shellSucceeds :: "call list \<Rightarrow> string \<Rightarrow> string option \<Rightarrow> bool"
  rawResultsFile :: "call list \<Rightarrow> string \<Rightarrow> WPRawPerformanceResults option"
  configFile :: "call list \<Rightarrow> string \<Rightarrow> json obj option"
  written :: "call list \<Rightarrow> string \<Rightarrow> json \<Rightarrow> bool"

type_synonym 'a io = "state \<Rightarrow> (error + 'a) \<times> state"

definition return :: "'a \<Rightarrow> 'a io" where
  "return x s = (Inr x, s)"

definition throw :: "error \<Rightarrow> 'a io" where
  "throw e s = (Inl e, s)"

text \<open>Sequencing: an exception skips the rest.\<close>

definition bind :: "'a io \<Rightarrow> ('a \<Rightarrow> 'b io) \<Rightarrow> 'b io" where
  "bind m f s = (case m s of (Inl e, s') \<Rightarrow> (Inl e, s') | (Inr x, s') \<Rightarrow> f x s')"

text \<open>An external call: recorded, then answered by the environment.\<close>

definition perform :: "call \<Rightarrow> (call list \<Rightarrow> 'a option) \<Rightarrow> 'a io" where
  "perform c answer s =
     (case answer (trace s) of
        None \<Rightarrow> (Inl (Failed c), s\<lparr>trace := trace s @ [c]\<rparr>)
      | Some x \<Rightarrow> (Inr x, s\<lparr>trace := trace s @ [c]\<rparr>))"

definition succeeds :: "bool \<Rightarrow> unit option" where
  "succeeds b = (if b then Some () else None)"

definition askForConfirmation :: "env \<Rightarrow> string \<Rightarrow> unit io" where
  "askForConfirmation E message =
     perform (AskForConfirmation message) (\<lambda>h. succeeds (confirmed E h message))"

definition git_clone :: "env \<Rightarrow> string \<Rightarrow> string io" where
  "git_clone E url = perform (GitClone url) (\<lambda>h. cloned E h url)"

definition git_checkoutRemoteBranch :: "env \<Rightarrow> string \<Rightarrow> string \<Rightarrow> unit io" where
  "git_checkoutRemoteBranch E directory branch =
     perform (GitCheckoutRemoteBranch directory branch)
       (\<lambda>h. succeeds (checkedOut E h directory branch))"

definition git_discardLocalChanges :: "env \<Rightarrow> string \<Rightarrow> unit io" where
  "git_discardLocalChanges E directory =
     perform (GitDiscardLocalChanges directory) (\<lambda>h. succeeds (discarded E h directory))"

definition getRandomTemporaryPath :: "env \<Rightarrow> string io" where
  "getRandomTemporaryPath E = perform GetRandomTemporaryPath (\<lambda>h. temporaryPath E h)"

definition runShellScript :: "env \<Rightarrow> string \<Rightarrow> string option \<Rightarrow> unit io" where
  "runShellScript E script cwd =
     perform (RunShellScript script cwd) (\<lambda>h. succeeds (shellSucceeds E h script cwd))"

definition readJSONFile_results :: "env \<Rightarrow> string \<Rightarrow> WPRawPerformanceResults io" where
  "readJSONFile_results E fileName =
     perform (ReadJSONFile fileName) (\<lambda>h. rawResultsFile E h fileName)"

definition readJSONFile_config :: "env \<Rightarrow> string \<Rightarrow> json obj io" where
  "readJSONFile_config E fileName =
     perform (ReadJSONFile fileName) (\<lambda>h. configFile E h fileName)"

definition writeFileSync :: "env \<Rightarrow> string \<Rightarrow> json \<Rightarrow> unit io" where
  "writeFileSync E fileName content =
     perform (WriteFileSync fileName content) (\<lambda>h. succeeds (written E h fileName content))"

definition console_table :: "string obj obj \<Rightarrow> unit io" where
  "console_table t = perform (ConsoleTable t) (\<lambda>h. Some ())"

text \<open>\<open>JSON.stringify\<close> writes a number that is not finite as \<open>null\<close>.\<close>

fun json_of_number :: "number \<Rightarrow> json" where
  "json_of_number (Fin a) = JNumber a"
| "json_of_number _ = JNull"

definition json_of_results :: "number WPPerformanceResults obj \<Rightarrow> json" where
  "json_of_results obj =
     JObject (map (\<lambda>(branch, r).
       (branch, JObject (map (\<lambda>(k, v). (k, json_of_number v)) (entries r)))) obj)"

section \<open>The version pattern\<close>

text \<open>
  \<open>/^(\d+\.\d+).0/\<close> is matched at the start of the string only. A matcher gives the
  remainders of the input after each way to match, in the order in which backtracking
  tries them: \<open>+\<close> is greedy, so the longest repetition comes first. A character of
  the model is one code unit below 256, so the line terminators that \<open>.\<close> refuses
  are line feed and carriage return.
\<close>

type_synonym matcher = "string \<Rightarrow> string list"

fun one :: "(char \<Rightarrow> bool) \<Rightarrow> matcher" where
  "one p [] = []"
| "one p (c # cs) = (if p c then [cs] else [])"

fun plus :: "(char \<Rightarrow> bool) \<Rightarrow> matcher" where
  "plus p [] = []"
| "plus p (c # cs) = (if p c then plus p cs @ [cs] else [])"

definition seq :: "matcher \<Rightarrow> matcher \<Rightarrow> matcher" where
  "seq m1 m2 s = concat (map m2 (m1 s))"

definition any_char :: "char \<Rightarrow> bool" where
  "any_char c = (c \<noteq> CHR 0x0A \<and> c \<noteq> CHR 0x0D)"

text \<open>The group \<open>(\d+\.\d+)\<close> and the rest \<open>.0\<close> of the pattern.\<close>

definition version_group :: matcher where
  "version_group = seq (plus is_digit) (seq (one (\<lambda>c. c = CHR ''.'')) (plus is_digit))"

definition version_rest :: matcher where
  "version_rest = seq (one any_char) (one (\<lambda>c. c = CHR ''0''))"

text \<open>
  \<open>wpVersion.replace( /^(\d+\.\d+).0/, '$1' )\<close>: the first match is replaced by the text
  of its group, that is, the input up to the remainder \<open>r1\<close> of the group; what follows
  the match (\<open>r2\<close>) is kept.
\<close>

definition zipVersion :: "string \<Rightarrow> string" where
  "zipVersion wpVersion =
     (case concat (map (\<lambda>r1. map (\<lambda>r2. (r1, r2)) (version_rest r1)) (version_group wpVersion)) of
        [] \<Rightarrow> wpVersion
      | (r1, r2) # _ \<Rightarrow> take (length wpVersion - length r1) wpVersion @ r2)"

definition zipUrl :: "string \<Rightarrow> string" where
  "zipUrl wpVersion = ''https://wordpress.org/wordpress-'' @ zipVersion wpVersion @ ''.zip''"

section \<open>Branches and test suites\<close>

text \<open>\<open>setUpGitBranch\<close> (line 126).\<close>

definition setUpGitBranch :: "env \<Rightarrow> string \<Rightarrow> string \<Rightarrow> unit io" where
  "setUpGitBranch E branch environmentDirectory =
     bind (git_discardLocalChanges E environmentDirectory) (\<lambda>_.
     bind (git_checkoutRemoteBranch E environmentDirectory branch) (\<lambda>_.
     runShellScript E
       ''rm -rf node_modules packages/*/node_modules && npm install && npm run build''
       (Some environmentDirectory)))"

definition test_command :: "string \<Rightarrow> string" where
  "test_command testSuite =
     ''npm run test-performance -- packages/e2e-tests/specs/performance/'' @ testSuite @ ''.test.js''"

definition results_file :: "env \<Rightarrow> string \<Rightarrow> string \<Rightarrow> string" where
  "results_file E testSuite performanceTestDirectory =
     path_join E performanceTestDirectory
       (''packages/e2e-tests/specs/performance/'' @ testSuite @ ''.test.results.json'')"

text \<open>
  \<open>runTestSuite\<close> (line 149): first its loop \<open>for ( let i = 0; i < 3; i++ )\<close>, on the array
  \<open>results\<close> of the function, then the medians and their rounding.
\<close>

function runTestSuite_loop ::
  "env \<Rightarrow> string \<Rightarrow> string \<Rightarrow> nat \<Rightarrow> number WPPerformanceResults list
     \<Rightarrow> number WPPerformanceResults list io" where
  "runTestSuite_loop E testSuite performanceTestDirectory i rs s =
     (if i < 3 then
        bind (runShellScript E (test_command testSuite) (Some performanceTestDirectory)) (\<lambda>_.
        bind (readJSONFile_results E (results_file E testSuite performanceTestDirectory)) (\<lambda>rawResults s'.
        runTestSuite_loop E testSuite performanceTestDirectory (i + 1)
          (rs @ [curateResults rawResults]) s')) s
      else return rs s)"
  by pat_completeness auto
termination
  by (relation "measure (\<lambda>(E, testSuite, performanceTestDirectory, i, rs, s). 3 - i)") auto

definition runTestSuite :: "env \<Rightarrow> string \<Rightarrow> string \<Rightarrow> number WPPerformanceResults io" where
  "runTestSuite E testSuite performanceTestDirectory =
     bind (runTestSuite_loop E testSuite performanceTestDirectory 0 []) (\<lambda>rs.
       let medians = mapValues
             \<lparr> load = map load rs,
               type = map type rs,
               minType = map minType rs,
               maxType = map maxType rs,
               focus = map focus rs,
               minFocus = map minFocus rs,
               maxFocus = map maxFocus rs,
               inserterOpen = map inserterOpen rs,
               minInserterOpen = map minInserterOpen rs,
               maxInserterOpen = map maxInserterOpen rs,
               inserterHover = map inserterHover rs,
               minInserterHover = map minInserterHover rs,
               maxInserterHover = map maxInserterHover rs \<rparr>
             median
       in return (mapValues medians formatTime))"

definition testSuites :: "string list" where
  "testSuites = [''post-editor'', ''site-editor'']"

text \<open>
  The object literal of line 288, \<open>{ ...results, [ testSuite ]: { ...results[ testSuite ], [ branch ]: r } }\<close>.
\<close>

definition merge_result ::
  "'v obj obj \<Rightarrow> string \<Rightarrow> string \<Rightarrow> 'v \<Rightarrow> 'v obj obj" where
  "merge_result table testSuite branch r =
     obj_set table testSuite (obj_set (spread (obj_get table testSuite)) branch r)"

text \<open>
  The inner loop \<open>for ( const testSuite of testSuites )\<close> (line 287). The two spreads read
  \<open>results\<close> before \<open>runTestSuite\<close> is awaited.
\<close>

fun testSuites_loop :: "env \<Rightarrow> string \<Rightarrow> string \<Rightarrow> string list \<Rightarrow> unit io" where
  "testSuites_loop E branch performanceTestDirectory [] s = return () s"
| "testSuites_loop E branch performanceTestDirectory (testSuite # rest) s =
     (let current = results s
      in bind (runTestSuite E testSuite performanceTestDirectory) (\<lambda>r s'.
           testSuites_loop E branch performanceTestDirectory rest
             (s'\<lparr>results := merge_result current testSuite branch r\<rparr>)) s)"

text \<open>The outer loop \<open>for ( const branch of branches )\<close> (line 279).\<close>

fun branches_loop :: "env \<Rightarrow> string \<Rightarrow> string \<Rightarrow> string list \<Rightarrow> unit io" where
  "branches_loop E environmentDirectory performanceTestDirectory [] s = return () s"
| "branches_loop E environmentDirectory performanceTestDirectory (branch # rest) s =
     bind (setUpGitBranch E branch environmentDirectory) (\<lambda>_.
     bind (testSuites_loop E branch performanceTestDirectory testSuites) (\<lambda>_ s'.
     branches_loop E environmentDirectory performanceTestDirectory rest s')) s"

section \<open>The report\<close>

text \<open>
  The body of the reducer of \<open>invertedResult\<close> (line 310): the loop
  \<open>for ( const entry of Object.keys( val ) )\<close> on the accumulator \<open>acc\<close>, where \<open>key\<close>
  is the branch and \<open>val\<close> its results. A row \<open>acc[entry]\<close> is an object, which is truthy;
  the keys of \<open>val\<close> are the thirteen keys of a \<open>WPPerformanceResults\<close>, so that the row
  exists when the cell is assigned.
\<close>

fun invert_keys ::
  "env \<Rightarrow> string \<Rightarrow> number obj \<Rightarrow> string obj obj \<Rightarrow> string obj obj" where
  "invert_keys E key [] acc = acc"
| "invert_keys E key ((entry, v) # val) acc =
     (let acc1 = (if obj_get acc entry = None then obj_assign acc entry [] else acc);
          acc2 = (if isFinite v
                  then (case obj_get acc1 entry of
                          None \<Rightarrow> acc1
                        | Some row \<Rightarrow>
                            update_key entry (obj_assign row key (toString E v @ '' ms'')) acc1)
                  else acc1)
      in invert_keys E key val acc2)"

text \<open>\<open>Object.entries( results[ testSuite ] ).reduce( ..., invertedResult )\<close>\<close>

definition invert :: "env \<Rightarrow> number WPPerformanceResults obj \<Rightarrow> string obj obj" where
  "invert E branchResults =
     foldl (\<lambda>acc (key, val). invert_keys E key (entries val) acc) [] branchResults"

definition resultsFilename :: "string \<Rightarrow> string" where
  "resultsFilename testSuite = testSuite @ ''-performance-results.json''"

text \<open>
  The last loop \<open>for ( const testSuite of testSuites )\<close> (line 305). The content of the
  file is the JSON value that \<open>JSON.stringify\<close> prints.
\<close>

fun report_loop :: "env \<Rightarrow> string list \<Rightarrow> unit io" where
  "report_loop E [] s = return () s"
| "report_loop E (testSuite # rest) s =
     (case obj_get (results s) testSuite of
        None \<Rightarrow> throw TypeError s
      | Some branchResults \<Rightarrow>
          bind (console_table (invert E branchResults)) (\<lambda>_.
          bind (writeFileSync E
                 (path_resolve E (dirname E) ''../../../'' (resultsFilename testSuite))
                 (json_of_results branchResults)) (\<lambda>_ s'.
          report_loop E rest s')) s)"

section \<open>\<open>runPerformanceTests\<close>\<close>

record WPPerformanceCommandOptions =
  ci :: bool
  testsBranch :: "string option"
  wpVersion :: "string option"

text \<open>
  \<open>if ( x ) { ... }\<close> on an optional string \<open>x\<close>: the body runs when \<open>x\<close> is given and
  not empty.
\<close>

definition if_given :: "string option \<Rightarrow> (string \<Rightarrow> unit io) \<Rightarrow> unit io" where
  "if_given x body =
     (case x of None \<Rightarrow> return () | Some v \<Rightarrow> if v = [] then return () else body v)"

definition run_if :: "bool \<Rightarrow> unit io \<Rightarrow> unit io" where
  "run_if b m = (if b then m else return ())"

text \<open>
  The patch of \<open>.wp-env.json\<close> (line 246): \<open>conf\<close> is
  \<open>{ ...readJSONFile( confPath ), core: zipUrl }\<close>. The script spreads what
  \<open>readJSONFile\<close> returns without awaiting it: the function is synchronous.
\<close>

definition patchConfig :: "env \<Rightarrow> string \<Rightarrow> string \<Rightarrow> unit io" where
  "patchConfig E version environmentDirectory =
     (let confPath = environmentDirectory @ ''/.wp-env.json''
      in bind (readJSONFile_config E confPath) (\<lambda>old.
           let conf = obj_set old ''core'' (JString (zipUrl version))
           in writeFileSync E confPath (JObject conf)))"

text \<open>
  \<open>runPerformanceTests\<close> (line 194) from the confirmation to the start of the
  environment (lines 207 to 273). The result is the pair of
  \<open>performanceTestDirectory\<close> and \<open>environmentDirectory\<close>.
\<close>

definition startEnvironment :: "env \<Rightarrow> WPPerformanceCommandOptions \<Rightarrow> (string \<times> string) io" where
  "startEnvironment E options =
     bind (run_if (\<not> ci options) (askForConfirmation E ''Ready to go? '')) (\<lambda>_.
     bind (git_clone E (gitRepositoryURL E)) (\<lambda>performanceTestDirectory.
     bind (if_given (testsBranch options)
            (\<lambda>branch. git_checkoutRemoteBranch E performanceTestDirectory branch)) (\<lambda>_.
     bind (getRandomTemporaryPath E) (\<lambda>environmentDirectory.
     bind (runShellScript E ''npm install && npm run build:packages''
            (Some performanceTestDirectory)) (\<lambda>_.
     bind (runShellScript E
            (''cp -R '' @ performanceTestDirectory @ '' '' @ environmentDirectory) None) (\<lambda>_.
     bind (if_given (wpVersion options)
            (\<lambda>version. patchConfig E version environmentDirectory)) (\<lambda>_.
     bind (runShellScript E ''npm run wp-env start'' (Some environmentDirectory)) (\<lambda>_.
     return (performanceTestDirectory, environmentDirectory)))))))))"

text \<open>The stop of the environment (line 302).\<close>

definition stopEnvironment :: "env \<Rightarrow> string \<Rightarrow> unit io" where
  "stopEnvironment E environmentDirectory =
     runShellScript E ''npm run wp-env stop'' (Some environmentDirectory)"

text \<open>The default of line 196.\<close>

definition default_branches :: "string list \<Rightarrow> string list" where
  "default_branches branches = (if length branches = 0 then [''trunk''] else branches)"

text \<open>
  The whole function. The second step is \<open>let results = {}\<close>.
\<close>

definition runPerformanceTests ::
  "env \<Rightarrow> string list \<Rightarrow> WPPerformanceCommandOptions \<Rightarrow> unit io" where
  "runPerformanceTests E branches options =
     bind (startEnvironment E options) (\<lambda>(performanceTestDirectory, environmentDirectory).
     bind (\<lambda>s. return () (s\<lparr>results := []\<rparr>)) (\<lambda>_.
     bind (branches_loop E environmentDirectory performanceTestDirectory
            (default_branches branches)) (\<lambda>_.
     bind (stopEnvironment E environmentDirectory) (\<lambda>_.
     report_loop E testSuites))))"

section \<open>Notions used in the statements\<close>

text \<open>A session starts with an empty trace.\<close>

definition initial :: state where
  "initial = \<lparr> trace = [], results = [] \<rparr>"

text \<open>The entry of a table at \<open>[k1][k2]\<close>, if there is one.\<close>

definition lookup2 :: "'v obj obj \<Rightarrow> string \<Rightarrow> string \<Rightarrow> 'v option" where
  "lookup2 table k1 k2 = (case obj_get table k1 of None \<Rightarrow> None | Some row \<Rightarrow> obj_get row k2)"

text \<open>The keys of an object, in the order of enumeration.\<close>

definition keys :: "'v obj \<Rightarrow> string list" where
  "keys obj = map fst obj"

text \<open>A key that is not an array index.\<close>

definition is_name :: "string \<Rightarrow> bool" where
  "is_name k = (array_index k = None)"

text \<open>The stop of the environment, and the display of a table.\<close>

definition is_stop :: "call \<Rightarrow> bool" where
  "is_stop c = (case c of RunShellScript script cwd \<Rightarrow> script = ''npm run wp-env stop'' | _ \<Rightarrow> False)"

definition is_table :: "call \<Rightarrow> bool" where
  "is_table c = (case c of ConsoleTable t \<Rightarrow> True | _ \<Rightarrow> False)"

text \<open>
  An action is silent when the calls it issues are neither the stop of the environment
  nor the display of a table, and it keeps the results when it leaves the variable
  \<open>results\<close> as it is.
\<close>

definition silent :: "'a io \<Rightarrow> bool" where
  "silent m =
     (\<forall>s x s'. m s = (x, s') \<longrightarrow>
        (\<exists>t. trace s' = trace s @ t \<and> (\<forall>c \<in> set t. \<not> is_stop c \<and> \<not> is_table c)))"

definition keeps_results :: "'a io \<Rightarrow> bool" where
  "keeps_results m = (\<forall>s x s'. m s = (x, s') \<longrightarrow> results s' = results s)"


text \<open>
  A table covers the branches \<open>bs\<close> when the row of each suite has one key for each of
  them and no other.
\<close>

definition covers :: "'v obj obj \<Rightarrow> string list \<Rightarrow> bool" where
  "covers table bs =
     (\<forall>suite \<in> set testSuites. \<exists>row.
        obj_get table suite = Some row \<and> distinct (keys row) \<and> set (keys row) = set bs)"

text \<open>The fields of a JSON object.\<close>

definition json_fields :: "json \<Rightarrow> (string \<times> json) list" where
  "json_fields j = (case j of JObject members \<Rightarrow> members | _ \<Rightarrow> [])"

text \<open>The thirteen keys of a \<open>WPPerformanceResults\<close>.\<close>

definition metrics :: "string list" where
  "metrics =
     [ ''load'', ''type'', ''minType'', ''maxType'', ''focus'', ''minFocus'', ''maxFocus'',
       ''inserterOpen'', ''minInserterOpen'', ''maxInserterOpen'',
       ''inserterHover'', ''minInserterHover'', ''maxInserterHover'' ]"

text \<open>
  The cell that the report shows for a value: a finite number followed by \<open>ms\<close>, and
  nothing for a value that is not finite.
\<close>

definition cell :: "env \<Rightarrow> number \<Rightarrow> string option" where
  "cell E v = (if isFinite v then Some (toString E v @ '' ms'') else None)"

text \<open>One pass through the body of the loop over the branches.\<close>

definition one_branch :: "env \<Rightarrow> string \<Rightarrow> string \<Rightarrow> string \<Rightarrow> unit io" where
  "one_branch E environmentDirectory performanceTestDirectory branch =
     bind (setUpGitBranch E branch environmentDirectory) (\<lambda>_.
     testSuites_loop E branch performanceTestDirectory testSuites)"

text \<open>
  One pass through the body of the loop of \<open>runTestSuite\<close>: the test run, then the read
  of its results file; and the two calls it issues.
\<close>

definition one_run :: "env \<Rightarrow> string \<Rightarrow> string \<Rightarrow> WPRawPerformanceResults io" where
  "one_run E testSuite performanceTestDirectory =
     bind (runShellScript E (test_command testSuite) (Some performanceTestDirectory)) (\<lambda>_.
     readJSONFile_results E (results_file E testSuite performanceTestDirectory))"

definition run_calls :: "env \<Rightarrow> string \<Rightarrow> string \<Rightarrow> call list" where
  "run_calls E testSuite performanceTestDirectory =
     [ RunShellScript (test_command testSuite) (Some performanceTestDirectory),
       ReadJSONFile (results_file E testSuite performanceTestDirectory) ]"

text \<open>
  What the specification asks of a suite result: for each of the thirteen keys, the
  median of the three curated values, rounded by \<open>formatTime\<close>.
\<close>

definition rounded_medians ::
  "number WPPerformanceResults \<Rightarrow> number WPPerformanceResults \<Rightarrow> number WPPerformanceResults
     \<Rightarrow> number WPPerformanceResults" where
  "rounded_medians c1 c2 c3 =
     \<lparr> load = formatTime (median [load c1, load c2, load c3]),
       type = formatTime (median [type c1, type c2, type c3]),
       minType = formatTime (median [minType c1, minType c2, minType c3]),
       maxType = formatTime (median [maxType c1, maxType c2, maxType c3]),
       focus = formatTime (median [focus c1, focus c2, focus c3]),
       minFocus = formatTime (median [minFocus c1, minFocus c2, minFocus c3]),
       maxFocus = formatTime (median [maxFocus c1, maxFocus c2, maxFocus c3]),
       inserterOpen = formatTime (median [inserterOpen c1, inserterOpen c2, inserterOpen c3]),
       minInserterOpen =
         formatTime (median [minInserterOpen c1, minInserterOpen c2, minInserterOpen c3]),
       maxInserterOpen =
         formatTime (median [maxInserterOpen c1, maxInserterOpen c2, maxInserterOpen c3]),
       inserterHover = formatTime (median [inserterHover c1, inserterHover c2, inserterHover c3]),
       minInserterHover =
         formatTime (median [minInserterHover c1, minInserterHover c2, minInserterHover c3]),
       maxInserterHover =
         formatTime (median [maxInserterHover c1, maxInserterHover c2, maxInserterHover c3]) \<rparr>"

text \<open>The calls of \<open>setUpGitBranch\<close> and of one pass through the loop over the branches.\<close>

definition setUp_calls :: "string \<Rightarrow> string \<Rightarrow> call list" where
  "setUp_calls branch environmentDirectory =
     [ GitDiscardLocalChanges environmentDirectory,
       GitCheckoutRemoteBranch environmentDirectory branch,
       RunShellScript
         ''rm -rf node_modules packages/*/node_modules && npm install && npm run build''
         (Some environmentDirectory) ]"

definition branch_calls :: "env \<Rightarrow> string \<Rightarrow> string \<Rightarrow> string \<Rightarrow> call list" where
  "branch_calls E environmentDirectory performanceTestDirectory branch =
     setUp_calls branch environmentDirectory
     @ concat (map (\<lambda>testSuite.
         run_calls E testSuite performanceTestDirectory
         @ run_calls E testSuite performanceTestDirectory
         @ run_calls E testSuite performanceTestDirectory) testSuites)"

text \<open>
  An environment in which every call succeeds and every results file holds the same
  samples, for the concrete runs below.
\<close>

definition example_raw :: WPRawPerformanceResults where
  "example_raw =
     \<lparr> WPRawPerformanceResults.load = [Fin 100],
       type = [Fin 10, Fin 20, Fin 30],
       focus = [Fin 1, Fin 2],
       inserterOpen = [],
       inserterHover = [Fin 12.3456] \<rparr>"

definition example_result :: "number WPPerformanceResults" where
  "example_result =
     \<lparr> load = Fin 100, type = Fin 20, minType = Fin 10, maxType = Fin 30,
       focus = Fin 1.5, minFocus = Fin 1, maxFocus = Fin 2,
       inserterOpen = NaN, minInserterOpen = PosInfinity, maxInserterOpen = NegInfinity,
       inserterHover = Fin 12.35, minInserterHover = Fin 12.35, maxInserterHover = Fin 12.35 \<rparr>"

definition example_options :: WPPerformanceCommandOptions where
  "example_options = \<lparr> ci = True, testsBranch = None, wpVersion = Some ''5.7.0'' \<rparr>"

definition example_env :: env where
  "example_env =
     \<lparr> gitRepositoryURL = ''https://github.com/WordPress/gutenberg.git'',
       dirname = ''/gutenberg/bin/plugin/commands'',
       path_join = (\<lambda>a b. a @ ''/'' @ b),
       path_resolve = (\<lambda>a b c. ''/gutenberg/'' @ c),
       toString = (\<lambda>v. if v = Fin 100 then ''100'' else ''x''),
       confirmed = (\<lambda>h message. True),
       cloned = (\<lambda>h url. Some ''/tmp/perf''),
       checkedOut = (\<lambda>h directory branch. True),
       discarded = (\<lambda>h directory. True),
       temporaryPath = (\<lambda>h. Some ''/tmp/env''),
       shellSucceeds = (\<lambda>h script cwd. True),
       rawResultsFile = (\<lambda>h fileName. Some example_raw),
       configFile = (\<lambda>h fileName. Some []),
       written = (\<lambda>h fileName content. True) \<rparr>"

text \<open>The same environment, except that the check-out of the branch \<open>broken\<close> fails.\<close>

definition failing_env :: env where
  "failing_env = example_env\<lparr>checkedOut := (\<lambda>h directory branch. branch \<noteq> ''broken'')\<rparr>"

text \<open>The calls of \<open>startEnvironment\<close> in these environments, with \<open>example_options\<close>.\<close>

definition example_start :: "call list" where
  "example_start =
     [ GitClone ''https://github.com/WordPress/gutenberg.git'',
       GetRandomTemporaryPath,
       RunShellScript ''npm install && npm run build:packages'' (Some ''/tmp/perf''),
       RunShellScript ''cp -R /tmp/perf /tmp/env'' None,
       ReadJSONFile ''/tmp/env/.wp-env.json'',
       WriteFileSync ''/tmp/env/.wp-env.json''
         (JObject [(''core'', JString ''https://wordpress.org/wordpress-5.7.zip'')]),
       RunShellScript ''npm run wp-env start'' (Some ''/tmp/env'') ]"

section \<open>Properties of the statistics\<close>
















section \<open>Properties of the sequencing\<close>

lemma bind_Inr:
  "bind m f s = (Inr y, s') \<longleftrightarrow> (\<exists>x s1. m s = (Inr x, s1) \<and> f x s1 = (Inr y, s'))"
  by (auto simp: bind_def split: prod.splits sum.splits)


lemma bind_step: "m s = (Inr x, s1) \<Longrightarrow> bind m f s = f x s1"
  by (simp add: bind_def)

lemma bind_fail: "m s = (Inl e, s1) \<Longrightarrow> bind m f s = (Inl e, s1)"
  by (simp add: bind_def)

lemma perform_Inr:
  "perform c answer s = (Inr x, s') \<longleftrightarrow>
     answer (trace s) = Some x \<and> s' = s\<lparr>trace := trace s @ [c]\<rparr>"
  by (auto simp: perform_def split: option.splits)


lemma succeeds_Some: "succeeds b = Some x \<longleftrightarrow> b"
  by (simp add: succeeds_def)

section \<open>Properties of \<open>runTestSuite\<close>\<close>

lemma one_run_Inr:
  "one_run E t d s = (Inr raw, s') \<longleftrightarrow>
     shellSucceeds E (trace s) (test_command t) (Some d) \<and>
     rawResultsFile E (trace s @ [RunShellScript (test_command t) (Some d)]) (results_file E t d)
       = Some raw \<and>
     s' = s\<lparr>trace := trace s @ run_calls E t d\<rparr>"
  by (auto simp: one_run_def bind_Inr runShellScript_def readJSONFile_results_def perform_Inr
      succeeds_Some run_calls_def)


lemma runTestSuite_loop_unroll:
  "runTestSuite_loop E t d 0 [] =
     bind (one_run E t d) (\<lambda>r1. bind (one_run E t d) (\<lambda>r2. bind (one_run E t d) (\<lambda>r3.
       return [curateResults r1, curateResults r2, curateResults r3])))"
proof
  fix s
  have 3: "\<And>rs s. runTestSuite_loop E t d 3 rs s = return rs s"
    by (subst runTestSuite_loop.simps) simp
  have 2: "\<And>rs s. runTestSuite_loop E t d 2 rs s =
      bind (one_run E t d) (\<lambda>r s'. return (rs @ [curateResults r]) s') s"
    by (subst runTestSuite_loop.simps)
      (simp add: 3 one_run_def bind_def split: prod.splits sum.splits)
  have 1: "\<And>rs s. runTestSuite_loop E t d 1 rs s =
      bind (one_run E t d) (\<lambda>r2. bind (one_run E t d)
        (\<lambda>r s'. return (rs @ [curateResults r2, curateResults r]) s')) s"
    by (subst runTestSuite_loop.simps)
      (simp add: 2 one_run_def bind_def split: prod.splits sum.splits)
  show "runTestSuite_loop E t d 0 [] s =
     bind (one_run E t d) (\<lambda>r1. bind (one_run E t d) (\<lambda>r2. bind (one_run E t d) (\<lambda>r3.
       return [curateResults r1, curateResults r2, curateResults r3]))) s"
    by (subst runTestSuite_loop.simps)
      (simp add: 1 one_run_def bind_def split: prod.splits sum.splits)
qed

lemma runTestSuite_unfold:
  "runTestSuite E t d =
     bind (one_run E t d) (\<lambda>r1. bind (one_run E t d) (\<lambda>r2. bind (one_run E t d) (\<lambda>r3.
       return (rounded_medians (curateResults r1) (curateResults r2) (curateResults r3)))))"
  by (rule ext)
    (simp add: runTestSuite_def runTestSuite_loop_unroll bind_def return_def Let_def
      mapValues_def rounded_medians_def split: prod.splits sum.splits)





lemma example_curated: "rounded_medians (curateResults example_raw) (curateResults example_raw) (curateResults example_raw) = example_result"
  by code_simp

lemma example_env_simps:
  "gitRepositoryURL example_env = ''https://github.com/WordPress/gutenberg.git''"
  "dirname example_env = ''/gutenberg/bin/plugin/commands''"
  "path_join example_env a b = a @ ''/'' @ b"
  "path_resolve example_env a b c = ''/gutenberg/'' @ c"
  "toString example_env v = (if v = Fin 100 then ''100'' else ''x'')"
  "confirmed example_env h message"
  "cloned example_env h url = Some ''/tmp/perf''"
  "checkedOut example_env h directory branch"
  "discarded example_env h directory"
  "temporaryPath example_env h = Some ''/tmp/env''"
  "shellSucceeds example_env h script cwd"
  "rawResultsFile example_env h fileName = Some example_raw"
  "configFile example_env h fileName = Some []"
  "written example_env h fileName content"
  by (simp_all add: example_env_def)

lemma example_one_run:
  "one_run example_env t d s = (Inr example_raw, s\<lparr>trace := trace s @ run_calls example_env t d\<rparr>)"
  by (simp add: one_run_Inr example_env_simps)

lemma example_runTestSuite:
  "runTestSuite example_env t d s =
     (Inr example_result,
      s\<lparr>trace := trace s @ run_calls example_env t d @ run_calls example_env t d
                   @ run_calls example_env t d\<rparr>)"
  by (simp add: runTestSuite_unfold bind_step [OF example_one_run] return_def example_curated)







section \<open>Properties of objects\<close>

lemma map_of_update_key:
  "map_of (update_key k v obj) k' = (if k' = k \<and> k \<in> fst ` set obj then Some v else map_of obj k')"
  by (induction obj) (auto simp: rev_image_eqI)

lemma keys_update_key: "map fst (update_key k v obj) = map fst obj"
  by (induction obj) auto

lemma map_of_insert_index:
  "k \<notin> fst ` set obj \<Longrightarrow>
     map_of (insert_index n k v obj) k' = (if k' = k then Some v else map_of obj k')"
  by (induction obj) (auto split: option.splits)

lemma keys_insert_index:
  "\<exists>xs ys. map fst obj = xs @ ys \<and> map fst (insert_index n k v obj) = xs @ k # ys"
proof (induction obj)
  case Nil
  then show ?case by simp
next
  case (Cons p obj)
  obtain k' v' where p: "p = (k', v')" by (cases p)
  from Cons.IH obtain xs ys where
    IH: "map fst obj = xs @ ys" "map fst (insert_index n k v obj) = xs @ k # ys"
    by blast
  show ?case
  proof (cases "\<exists>m. array_index k' = Some m \<and> m < n")
    case True
    then obtain m where "array_index k' = Some m" "m < n" by blast
    then have "map fst (p # obj) = (k' # xs) @ ys
        \<and> map fst (insert_index n k v (p # obj)) = (k' # xs) @ k # ys"
      by (simp add: p IH)
    then show ?thesis by (intro exI)
  next
    case False
    then have "insert_index n k v (p # obj) = (k, v) # p # obj"
      by (cases "array_index k'") (simp_all add: p)
    then have "map fst (p # obj) = [] @ map fst (p # obj)
        \<and> map fst (insert_index n k v (p # obj)) = [] @ k # map fst (p # obj)"
      by simp
    then show ?thesis by (intro exI)
  qed
qed

lemma set_keys_insert_index:
  "fst ` set (insert_index n k v obj) = insert k (fst ` set obj)"
proof -
  obtain xs ys where *: "map fst obj = xs @ ys" "map fst (insert_index n k v obj) = xs @ k # ys"
    using keys_insert_index [of obj n k v] by blast
  have "set (map fst (insert_index n k v obj)) = insert k (set (map fst obj))"
    unfolding * by simp
  then show ?thesis by simp
qed

lemma distinct_keys_insert_index:
  assumes "k \<notin> fst ` set obj" "distinct (map fst obj)"
  shows "distinct (map fst (insert_index n k v obj))"
proof -
  obtain xs ys where *: "map fst obj = xs @ ys" "map fst (insert_index n k v obj) = xs @ k # ys"
    using keys_insert_index [of obj n k v] by blast
  from assms(1) have "k \<notin> set (map fst obj)" by simp
  with assms(2) show ?thesis unfolding * by auto
qed


lemma obj_get_obj_set:
  "obj_get (obj_set obj k v) k' = (if k' = k then Some v else obj_get obj k')"
proof (cases "k \<in> fst ` set obj")
  case True
  then show ?thesis
    by (simp add: obj_get_def obj_set_def has_own_def map_of_update_key)
next
  case False
  then have "map_of obj k = None" by (simp add: map_of_eq_None_iff)
  with False show ?thesis
    by (cases "array_index k")
      (auto simp: obj_get_def obj_set_def has_own_def map_of_insert_index map_add_def
        split: option.splits)
qed

lemma set_keys_obj_set: "set (keys (obj_set obj k v)) = insert k (set (keys obj))"
proof (cases "k \<in> fst ` set obj")
  case True
  then have "set (map fst (update_key k v obj)) = insert k (fst ` set obj)"
    unfolding keys_update_key by auto
  with True show ?thesis
    by (simp add: keys_def obj_set_def has_own_def)
next
  case False
  then show ?thesis
    by (cases "array_index k")
      (simp_all add: keys_def obj_set_def has_own_def set_keys_insert_index)
qed

lemma distinct_keys_obj_set: "distinct (keys obj) \<Longrightarrow> distinct (keys (obj_set obj k v))"
proof (cases "k \<in> fst ` set obj")
  case True
  assume "distinct (keys obj)"
  with True show ?thesis
    by (simp add: keys_def obj_set_def has_own_def keys_update_key)
next
  case False
  assume "distinct (keys obj)"
  with False show ?thesis
    by (cases "array_index k")
      (simp_all add: keys_def obj_set_def has_own_def distinct_keys_insert_index)
qed




lemma obj_get_None_iff: "obj_get obj k = None \<longleftrightarrow> k \<notin> set (keys obj)"
  by (simp add: obj_get_def keys_def map_of_eq_None_iff)

lemma obj_get_Nil: "obj_get [] k = None"
  by (simp add: obj_get_def)

lemma lookup2_merge_result:
  "lookup2 (merge_result table s b r) s' b' =
     (if s' = s \<and> b' = b then Some r else lookup2 table s' b')"
  by (auto simp: lookup2_def merge_result_def obj_get_obj_set spread_def obj_get_Nil
      split: option.splits)

lemma is_name_suites: "is_name ''post-editor''" "is_name ''site-editor''" "is_name ''trunk''"
  by (simp_all add: is_name_def array_index_def is_digit_def)

section \<open>Traces\<close>

lemma bind_assoc: "bind (bind m f) g = bind m (\<lambda>x. bind (f x) g)"
  by (rule ext) (simp add: bind_def split: prod.splits sum.splits)

lemma bind_return: "bind (return x) f = f x"
  by (rule ext) (simp add: bind_def return_def)

lemma silent_perform: "\<not> is_stop c \<Longrightarrow> \<not> is_table c \<Longrightarrow> silent (perform c answer)"
  by (auto simp: silent_def perform_def split: option.splits)

lemma silent_return: "silent (return x)"
  by (simp add: silent_def return_def)

lemma silent_bind:
  assumes "silent m" "\<And>x. silent (f x)"
  shows "silent (bind m f)"
  unfolding silent_def
proof (intro allI impI)
  fix s y s'
  assume run: "bind m f s = (y, s')"
  obtain x s1 where m: "m s = (x, s1)" by (cases "m s")
  from assms(1) m obtain t1 where t1: "trace s1 = trace s @ t1"
    "\<forall>c \<in> set t1. \<not> is_stop c \<and> \<not> is_table c"
    unfolding silent_def by blast
  show "\<exists>t. trace s' = trace s @ t \<and> (\<forall>c \<in> set t. \<not> is_stop c \<and> \<not> is_table c)"
  proof (cases x)
    case (Inl e)
    with run m have "s' = s1" by (simp add: bind_def)
    with t1 show ?thesis by blast
  next
    case (Inr v)
    with run m have "f v s1 = (y, s')" by (simp add: bind_def)
    with assms(2) [of v] obtain t2 where t2: "trace s' = trace s1 @ t2"
      "\<forall>c \<in> set t2. \<not> is_stop c \<and> \<not> is_table c"
      unfolding silent_def by blast
    from t1 t2 have "trace s' = trace s @ (t1 @ t2)"
      "\<forall>c \<in> set (t1 @ t2). \<not> is_stop c \<and> \<not> is_table c"
      by auto
    then show ?thesis by blast
  qed
qed

lemma keeps_perform: "keeps_results (perform c answer)"
  by (auto simp: keeps_results_def perform_def split: option.splits)

lemma keeps_bind:
  assumes "keeps_results m" "\<And>x. keeps_results (f x)"
  shows "keeps_results (bind m f)"
  unfolding keeps_results_def
proof (intro allI impI)
  fix s y s'
  assume run: "bind m f s = (y, s')"
  obtain x s1 where m: "m s = (x, s1)" by (cases "m s")
  with assms(1) have r1: "results s1 = results s" unfolding keeps_results_def by blast
  show "results s' = results s"
  proof (cases x)
    case (Inl e)
    with run m r1 show ?thesis by (simp add: bind_def)
  next
    case (Inr v)
    with run m have "f v s1 = (y, s')" by (simp add: bind_def)
    with assms(2) [of v] r1 show ?thesis unfolding keeps_results_def by metis
  qed
qed

lemma silent_if_given: "(\<And>v. silent (body v)) \<Longrightarrow> silent (if_given x body)"
  by (simp add: if_given_def silent_return split: option.splits)

lemma silent_run_if: "silent m \<Longrightarrow> silent (run_if b m)"
  by (simp add: run_if_def silent_return)

lemma silent_setUpGitBranch: "silent (setUpGitBranch E b d)"
  by (simp add: setUpGitBranch_def git_discardLocalChanges_def git_checkoutRemoteBranch_def
      runShellScript_def silent_bind silent_perform is_stop_def is_table_def)

lemma keeps_setUpGitBranch: "keeps_results (setUpGitBranch E b d)"
  by (simp add: setUpGitBranch_def git_discardLocalChanges_def git_checkoutRemoteBranch_def
      runShellScript_def keeps_bind keeps_perform)

lemma silent_one_run: "silent (one_run E t d)"
  by (simp add: one_run_def runShellScript_def readJSONFile_results_def silent_bind
      silent_perform is_stop_def is_table_def test_command_def)

lemma silent_runTestSuite: "silent (runTestSuite E t d)"
  by (simp add: runTestSuite_unfold silent_bind silent_one_run silent_return)

lemma silent_startEnvironment: "silent (startEnvironment E options)"
  by (simp add: startEnvironment_def patchConfig_def Let_def askForConfirmation_def git_clone_def
      git_checkoutRemoteBranch_def getRandomTemporaryPath_def runShellScript_def
      readJSONFile_config_def writeFileSync_def
      silent_bind silent_perform silent_return silent_if_given silent_run_if
      is_stop_def is_table_def)

section \<open>The loops over suites and branches\<close>

lemma testSuites_loop_Inr:
  "testSuites_loop E b d testSuites s = (Inr (), s') \<longleftrightarrow>
     (\<exists>r1 s1 r2 s2.
        runTestSuite E ''post-editor'' d s = (Inr r1, s1)
      \<and> runTestSuite E ''site-editor'' d
            (s1\<lparr>results := merge_result (results s) ''post-editor'' b r1\<rparr>) = (Inr r2, s2)
      \<and> s' = s2\<lparr>results :=
            merge_result (merge_result (results s) ''post-editor'' b r1) ''site-editor'' b r2\<rparr>)"
  by (auto simp: testSuites_def Let_def bind_Inr return_def)

lemma silent_testSuites_loop: "silent (\<lambda>s. testSuites_loop E b d suites s)"
proof (induction suites)
  case Nil
  show ?case using silent_return [of "()"] by (simp add: silent_def)
next
  case (Cons t suites)
  have step: "silent (\<lambda>s'. testSuites_loop E b d suites (s'\<lparr>results := T\<rparr>))" for T
    unfolding silent_def
  proof (intro allI impI)
    fix s x s'
    assume "testSuites_loop E b d suites (s\<lparr>results := T\<rparr>) = (x, s')"
    with Cons obtain t where "trace s' = trace (s\<lparr>results := T\<rparr>) @ t"
      "\<forall>c \<in> set t. \<not> is_stop c \<and> \<not> is_table c"
      unfolding silent_def by blast
    then show "\<exists>t. trace s' = trace s @ t \<and> (\<forall>c \<in> set t. \<not> is_stop c \<and> \<not> is_table c)"
      by simp
  qed
  show ?case
    unfolding silent_def
  proof (intro allI impI)
    fix s x s'
    assume "testSuites_loop E b d (t # suites) s = (x, s')"
    then have "bind (runTestSuite E t d) (\<lambda>r s'. testSuites_loop E b d suites
        (s'\<lparr>results := merge_result (results s) t b r\<rparr>)) s = (x, s')"
      by (simp add: Let_def)
    moreover have "silent (bind (runTestSuite E t d) (\<lambda>r s'. testSuites_loop E b d suites
        (s'\<lparr>results := merge_result (results s) t b r\<rparr>)))"
      by (intro silent_bind silent_runTestSuite step)
    ultimately show "\<exists>t. trace s' = trace s @ t \<and> (\<forall>c \<in> set t. \<not> is_stop c \<and> \<not> is_table c)"
      unfolding silent_def by blast
  qed
qed

lemma obj_get_merge_result:
  "obj_get (merge_result table s b r) s' =
     (if s' = s then Some (obj_set (spread (obj_get table s)) b r) else obj_get table s')"
  by (simp add: merge_result_def obj_get_obj_set)



lemma keys_Nil: "keys [] = []"
  by (simp add: keys_def)



lemma one_branch_Inr:
  "one_branch E e d b s = (Inr (), s') \<longleftrightarrow>
     (\<exists>sa r1 sb r2 sc.
        setUpGitBranch E b e s = (Inr (), sa)
      \<and> runTestSuite E ''post-editor'' d sa = (Inr r1, sb)
      \<and> runTestSuite E ''site-editor'' d
            (sb\<lparr>results := merge_result (results s) ''post-editor'' b r1\<rparr>) = (Inr r2, sc)
      \<and> s' = sc\<lparr>results :=
            merge_result (merge_result (results s) ''post-editor'' b r1) ''site-editor'' b r2\<rparr>)"
proof -
  have keep: "results sa = results s" if "setUpGitBranch E b e s = (Inr (), sa)" for sa
    using that keeps_setUpGitBranch [of E b e] unfolding keeps_results_def by blast
  show ?thesis
    unfolding one_branch_def bind_Inr testSuites_loop_Inr
    by (auto simp: keep)
qed

lemma branches_loop_Cons:
  "branches_loop E e d (b # bs) = bind (one_branch E e d b) (\<lambda>_. branches_loop E e d bs)"
  by (rule ext) (simp add: one_branch_def bind_assoc)

lemma branches_loop_Nil: "branches_loop E e d [] = return ()"
  by (rule ext) simp

lemma branches_loop_append:
  "branches_loop E e d (bs1 @ bs2) =
     bind (branches_loop E e d bs1) (\<lambda>_. branches_loop E e d bs2)"
proof (induction bs1)
  case Nil
  show ?case by (simp only: append_Nil branches_loop_Nil bind_return)
next
  case (Cons b bs1)
  have "branches_loop E e d ((b # bs1) @ bs2) =
      bind (one_branch E e d b) (\<lambda>_. branches_loop E e d (bs1 @ bs2))"
    by (simp only: append_Cons branches_loop_Cons)
  also have "\<dots> = bind (one_branch E e d b)
      (\<lambda>_. bind (branches_loop E e d bs1) (\<lambda>_. branches_loop E e d bs2))"
    by (simp only: Cons.IH)
  also have "\<dots> = bind (bind (one_branch E e d b) (\<lambda>_. branches_loop E e d bs1))
      (\<lambda>_. branches_loop E e d bs2)"
    by (simp only: bind_assoc)
  also have "\<dots> = bind (branches_loop E e d (b # bs1)) (\<lambda>_. branches_loop E e d bs2)"
    by (simp only: branches_loop_Cons)
  finally show ?case .
qed

lemma silent_one_branch: "silent (one_branch E e d b)"
  unfolding one_branch_def
  by (intro silent_bind silent_setUpGitBranch silent_testSuites_loop [unfolded eta_contract_eq])

lemma silent_branches_loop: "silent (branches_loop E e d bs)"
proof (induction bs)
  case Nil
  show ?case by (simp only: branches_loop_Nil silent_return)
next
  case (Cons b bs)
  show ?case unfolding branches_loop_Cons
    by (intro silent_bind silent_one_branch Cons)
qed

lemma branches_loop_step:
  assumes "branches_loop E e d (b # bs) s = (Inr (), s')"
  obtains s1 r1 r2 where "one_branch E e d b s = (Inr (), s1)"
    "results s1 = merge_result (merge_result (results s) ''post-editor'' b r1) ''site-editor'' b r2"
    "branches_loop E e d bs s1 = (Inr (), s')"
proof -
  from assms obtain u s1 where first: "one_branch E e d b s = (Inr u, s1)"
    and rest: "branches_loop E e d bs s1 = (Inr (), s')"
    unfolding branches_loop_Cons bind_Inr by blast
  from first have one: "one_branch E e d b s = (Inr (), s1)" by simp
  then obtain r1 r2 sc where "s1 = sc\<lparr>results :=
      merge_result (merge_result (results s) ''post-editor'' b r1) ''site-editor'' b r2\<rparr>"
    unfolding one_branch_Inr by blast
  then have "results s1 =
      merge_result (merge_result (results s) ''post-editor'' b r1) ''site-editor'' b r2"
    by simp
  with one show ?thesis using rest by (rule that)
qed






section \<open>Sessions in the example environment\<close>

lemma example_setUpGitBranch:
  "setUpGitBranch example_env b e s = (Inr (), s\<lparr>trace := trace s @ setUp_calls b e\<rparr>)"
  by (simp add: setUpGitBranch_def git_discardLocalChanges_def git_checkoutRemoteBranch_def
      runShellScript_def bind_def perform_def succeeds_def example_env_simps setUp_calls_def)

lemma example_one_branch:
  "one_branch example_env e d b s =
     (Inr (),
      s\<lparr>trace := trace s @ branch_calls example_env e d b,
        results := merge_result (merge_result (results s) ''post-editor'' b example_result)
                     ''site-editor'' b example_result\<rparr>)"
  by (simp add: one_branch_def testSuites_def Let_def bind_def return_def example_setUpGitBranch
      example_runTestSuite branch_calls_def)

lemma example_tables:
  "merge_result (merge_result [] ''post-editor'' ''trunk'' r1) ''site-editor'' ''trunk'' r2
     = [(''post-editor'', [(''trunk'', r1)]), (''site-editor'', [(''trunk'', r2)])]"
  "merge_result (merge_result
       [(''post-editor'', [(''trunk'', r1)]), (''site-editor'', [(''trunk'', r2)])]
       ''post-editor'' ''7'' r3) ''site-editor'' ''7'' r4
     = [(''post-editor'', [(''7'', r3), (''trunk'', r1)]),
        (''site-editor'', [(''7'', r4), (''trunk'', r2)])]"
  by (simp_all add: merge_result_def obj_set_def obj_get_def has_own_def spread_def
      array_index_def is_digit_def decimal_def)





section \<open>The version pattern, evaluated\<close>

lemma zipVersion_examples:
  "zipVersion ''5.7.0'' = ''5.7''" "zipVersion ''5.7.2'' = ''5.7.2''" "zipVersion ''5.7'' = ''5.7''"
  "zipVersion ''5.100'' = ''5.1''" "zipVersion ''5.7.0.1'' = ''5.7.1''"
  by (simp_all add: zipVersion_def version_group_def version_rest_def seq_def is_digit_def
      any_char_def)

text \<open>
  Claim C6. The three versions of the claim are mapped as it says: \<open>5.7.0\<close> to \<open>5.7\<close>,
  while \<open>5.7.2\<close> and \<open>5.7\<close> stay. The pattern does not escape the dot before the \<open>0\<close>
  and has no anchor at the end, so a version without a \<open>.0\<close> patch level can be rewritten
  as well: \<open>5.100\<close> becomes \<open>5.1\<close>, and that is the version written into the URL.
\<close>

theorem zipVersion_unescaped_dot:
  "zipVersion ''5.7.0'' = ''5.7''
   \<and> zipVersion ''5.7.2'' = ''5.7.2''
   \<and> zipVersion ''5.7'' = ''5.7''
   \<and> zipVersion ''5.100'' = ''5.1''
   \<and> patchConfig example_env ''5.100'' ''/tmp/env'' initial =
       (Inr (),
        \<lparr> trace =
            [ ReadJSONFile ''/tmp/env/.wp-env.json'',
              WriteFileSync ''/tmp/env/.wp-env.json''
                (JObject [(''core'', JString ''https://wordpress.org/wordpress-5.1.zip'')]) ],
          results = [] \<rparr>)"
  by (simp add: zipVersion_examples patchConfig_def zipUrl_def Let_def bind_def perform_def
      readJSONFile_config_def writeFileSync_def succeeds_def example_env_simps initial_def
      obj_set_def has_own_def array_index_def is_digit_def)

section \<open>Failures and the stop of the environment\<close>

lemma runPerformanceTests_started:
  assumes "startEnvironment E options s = (Inr (perfDir, envDir), s0)"
  shows "runPerformanceTests E branches options s =
     bind (branches_loop E envDir perfDir (default_branches branches)) (\<lambda>_.
     bind (stopEnvironment E envDir) (\<lambda>_.
     report_loop E testSuites)) (s0\<lparr>results := []\<rparr>)"
  using assms by (simp add: runPerformanceTests_def bind_def return_def)

lemma setUpGitBranch_trace:
  assumes "setUpGitBranch E b e s = (x, s')"
  shows "\<exists>t. trace s' = trace s @ t \<and> set t \<subseteq> set (setUp_calls b e)"
  using assms
  by (auto simp: setUpGitBranch_def git_discardLocalChanges_def git_checkoutRemoteBranch_def
      runShellScript_def bind_def perform_def setUp_calls_def split: option.splits)

lemma branches_loop_entries:
  assumes "branches_loop E e d bs s = (Inr (), s')" "lookup2 (results s') suite b \<noteq> None"
  shows "b \<in> set bs \<or> lookup2 (results s) suite b \<noteq> None"
  using assms
proof (induction bs arbitrary: s)
  case Nil
  then show ?case by (simp add: return_def)
next
  case (Cons b' bs)
  from Cons.prems(1) obtain s1 r1 r2 where
    s1: "results s1 =
      merge_result (merge_result (results s) ''post-editor'' b' r1) ''site-editor'' b' r2"
    and rest: "branches_loop E e d bs s1 = (Inr (), s')"
    by (rule branches_loop_step)
  from Cons.IH [OF rest Cons.prems(2)] show ?case
    by (auto simp: s1 lookup2_merge_result split: if_splits)
qed

lemma lookup2_Nil: "lookup2 [] suite b = None"
  by (simp add: lookup2_def obj_get_def)

lemma silentD:
  assumes "silent m" "m s = (x, s')" "\<forall>c \<in> set (trace s). \<not> is_stop c \<and> \<not> is_table c"
  shows "\<forall>c \<in> set (trace s'). \<not> is_stop c \<and> \<not> is_table c"
proof -
  from assms(1,2) obtain t where "trace s' = trace s @ t"
    "\<forall>c \<in> set t. \<not> is_stop c \<and> \<not> is_table c"
    unfolding silent_def by blast
  with assms(3) show ?thesis by auto
qed

lemma initial_quiet: "\<forall>c \<in> set (trace initial). \<not> is_stop c \<and> \<not> is_table c"
  by (simp add: initial_def)

lemma report_loop_trace:
  "report_loop E suites s = (x, s') \<Longrightarrow> \<exists>t. trace s' = trace s @ t"
proof (induction suites arbitrary: s)
  case Nil
  then show ?case by (simp add: return_def)
next
  case (Cons suite suites)
  show ?case
  proof (cases "obj_get (results s) suite")
    case None
    with Cons.prems show ?thesis by (simp add: throw_def)
  next
    case (Some row)
    let ?c1 = "ConsoleTable (invert E row)"
    let ?c2 = "WriteFileSync (path_resolve E (dirname E) ''../../../'' (resultsFilename suite))
        (json_of_results row)"
    let ?s1 = "s\<lparr>trace := trace s @ [?c1]\<rparr>"
    let ?s2 = "s\<lparr>trace := trace s @ [?c1, ?c2]\<rparr>"
    show ?thesis
    proof (cases "written E (trace s @ [?c1]) (path_resolve E (dirname E) ''../../../''
        (resultsFilename suite)) (json_of_results row)")
      case True
      with Cons.prems Some have "report_loop E suites ?s2 = (x, s')"
        by (simp add: bind_def console_table_def writeFileSync_def perform_def succeeds_def)
      from Cons.IH [OF this] show ?thesis by auto
    next
      case False
      with Cons.prems Some have "s' = ?s2"
        by (simp add: bind_def console_table_def writeFileSync_def perform_def succeeds_def)
      then show ?thesis by simp
    qed
  qed
qed

text \<open>
  Claim C7. Let the session reach the branch loop, let the loop complete for the
  branches before \<open>B\<close>, and let \<open>setUpGitBranch\<close> fail for \<open>B\<close>. Then
  \<open>runPerformanceTests\<close> throws this failure in the state of the failure: the table is
  the one the earlier branches left, so that every entry belongs to one of them; since
  the last of them only calls of the set-up of \<open>B\<close> were issued; and the trace holds
  neither the stop of the environment nor the display of a table.
\<close>

theorem setUp_failure_is_fatal:
  assumes start: "startEnvironment E options initial = (Inr (perfDir, envDir), s0)"
    and split: "default_branches branches = done @ B # rest"
    and before: "branches_loop E envDir perfDir done (s0\<lparr>results := []\<rparr>) = (Inr (), s1)"
    and fail: "setUpGitBranch E B envDir s1 = (Inl e, s2)"
  shows "runPerformanceTests E branches options initial = (Inl e, s2)
    \<and> results s2 = results s1
    \<and> (\<forall>suite b. lookup2 (results s2) suite b \<noteq> None \<longrightarrow> b \<in> set done)
    \<and> (\<exists>t. trace s2 = trace s1 @ t \<and> set t \<subseteq> set (setUp_calls B envDir))
    \<and> (\<forall>c \<in> set (trace s2). \<not> is_stop c \<and> \<not> is_table c)"
proof -
  have one: "one_branch E envDir perfDir B s1 = (Inl e, s2)"
    unfolding one_branch_def using fail by (rule bind_fail)
  have "branches_loop E envDir perfDir (B # rest) s1 = (Inl e, s2)"
    unfolding branches_loop_Cons using one by (rule bind_fail)
  then have loop: "branches_loop E envDir perfDir (default_branches branches)
      (s0\<lparr>results := []\<rparr>) = (Inl e, s2)"
    unfolding split branches_loop_append using before by (simp add: bind_def)
  have run: "runPerformanceTests E branches options initial = (Inl e, s2)"
    unfolding runPerformanceTests_started [OF start] using loop by (rule bind_fail)
  have keep: "results s2 = results s1"
    using keeps_setUpGitBranch fail unfolding keeps_results_def by blast
  have entries: "b \<in> set done" if "lookup2 (results s2) suite b \<noteq> None" for suite b
    using branches_loop_entries [OF before, of suite b] that
    by (simp add: keep lookup2_Nil)
  have q0: "\<forall>c \<in> set (trace (s0\<lparr>results := []\<rparr>)). \<not> is_stop c \<and> \<not> is_table c"
    using silentD [OF silent_startEnvironment start initial_quiet] by simp
  have q1: "\<forall>c \<in> set (trace s1). \<not> is_stop c \<and> \<not> is_table c"
    using silent_branches_loop before q0 by (rule silentD)
  have q2: "\<forall>c \<in> set (trace s2). \<not> is_stop c \<and> \<not> is_table c"
    using silent_setUpGitBranch fail q1 by (rule silentD)
  from run keep entries setUpGitBranch_trace [OF fail] q2 show ?thesis by blast
qed

text \<open>
  Claim C8, as amended. In a session that reaches the branch loop, the stop of the
  environment is the call that follows a completed branch loop; when a step of the loop
  fails, \<open>runPerformanceTests\<close> throws that failure in the state of the failure and the
  stop of the environment is not issued.
\<close>

theorem stop_follows_completed_loop:
  assumes start: "startEnvironment E options initial = (Inr (perfDir, envDir), s0)"
    and run: "runPerformanceTests E branches options initial = (x, s')"
  shows "(\<forall>s1. branches_loop E envDir perfDir (default_branches branches)
                  (s0\<lparr>results := []\<rparr>) = (Inr (), s1) \<longrightarrow>
            (\<exists>t. trace s' = trace s1 @ RunShellScript ''npm run wp-env stop'' (Some envDir) # t))
    \<and> (\<forall>e s1. branches_loop E envDir perfDir (default_branches branches)
                  (s0\<lparr>results := []\<rparr>) = (Inl e, s1) \<longrightarrow>
            x = Inl e \<and> s' = s1 \<and> (\<forall>c \<in> set (trace s'). \<not> is_stop c))"
proof (intro conjI allI impI)
  fix s1
  assume loop: "branches_loop E envDir perfDir (default_branches branches)
      (s0\<lparr>results := []\<rparr>) = (Inr (), s1)"
  let ?stop = "RunShellScript ''npm run wp-env stop'' (Some envDir)"
  from run have rest: "bind (stopEnvironment E envDir) (\<lambda>_. report_loop E testSuites) s1 = (x, s')"
    unfolding runPerformanceTests_started [OF start] using loop by (simp add: bind_def)
  obtain y s2 where stop: "stopEnvironment E envDir s1 = (y, s2)"
    by (cases "stopEnvironment E envDir s1")
  then have s2: "trace s2 = trace s1 @ [?stop]"
    by (auto simp: stopEnvironment_def runShellScript_def perform_def split: option.splits)
  show "\<exists>t. trace s' = trace s1 @ ?stop # t"
  proof (cases y)
    case (Inl e)
    with rest stop have "s' = s2" by (simp add: bind_def)
    with s2 show ?thesis by simp
  next
    case (Inr u)
    with rest stop have "report_loop E testSuites s2 = (x, s')" by (simp add: bind_def)
    then obtain t where "trace s' = trace s2 @ t"
      using report_loop_trace by blast
    with s2 show ?thesis by simp
  qed
next
  fix e s1
  assume loop: "branches_loop E envDir perfDir (default_branches branches)
      (s0\<lparr>results := []\<rparr>) = (Inl e, s1)"
  from run have "(x, s') = (Inl e, s1)"
    unfolding runPerformanceTests_started [OF start] using loop by (simp add: bind_def)
  then show "x = Inl e" "s' = s1" by simp_all
  have q0: "\<forall>c \<in> set (trace (s0\<lparr>results := []\<rparr>)). \<not> is_stop c \<and> \<not> is_table c"
    using silentD [OF silent_startEnvironment start initial_quiet] by simp
  have "\<forall>c \<in> set (trace s1). \<not> is_stop c \<and> \<not> is_table c"
    using silent_branches_loop loop q0 by (rule silentD)
  with \<open>s' = s1\<close> show "\<forall>c \<in> set (trace s'). \<not> is_stop c" by simp
qed

lemma failing_env_simps:
  "gitRepositoryURL failing_env = ''https://github.com/WordPress/gutenberg.git''"
  "dirname failing_env = ''/gutenberg/bin/plugin/commands''"
  "path_join failing_env a b = a @ ''/'' @ b"
  "path_resolve failing_env a b c = ''/gutenberg/'' @ c"
  "confirmed failing_env h message"
  "cloned failing_env h url = Some ''/tmp/perf''"
  "checkedOut failing_env h directory branch = (branch \<noteq> ''broken'')"
  "discarded failing_env h directory"
  "temporaryPath failing_env h = Some ''/tmp/env''"
  "shellSucceeds failing_env h script cwd"
  "rawResultsFile failing_env h fileName = Some example_raw"
  "configFile failing_env h fileName = Some []"
  "written failing_env h fileName content"
  by (simp_all add: failing_env_def example_env_def)

lemma failing_run_calls: "run_calls failing_env t d = run_calls example_env t d"
  by (simp add: run_calls_def results_file_def failing_env_simps example_env_simps)

lemma failing_one_run:
  "one_run failing_env t d s = (Inr example_raw, s\<lparr>trace := trace s @ run_calls example_env t d\<rparr>)"
  by (simp add: one_run_Inr failing_env_simps failing_run_calls)

lemma failing_runTestSuite:
  "runTestSuite failing_env t d s =
     (Inr example_result,
      s\<lparr>trace := trace s @ run_calls example_env t d @ run_calls example_env t d
                   @ run_calls example_env t d\<rparr>)"
  by (simp add: runTestSuite_unfold bind_def failing_one_run return_def example_curated)

lemma failing_setUpGitBranch:
  "setUpGitBranch failing_env b e s =
     (if b = ''broken''
      then (Inl (Failed (GitCheckoutRemoteBranch e b)),
            s\<lparr>trace := trace s @ [GitDiscardLocalChanges e, GitCheckoutRemoteBranch e b]\<rparr>)
      else (Inr (), s\<lparr>trace := trace s @ setUp_calls b e\<rparr>))"
  by (simp add: setUpGitBranch_def git_discardLocalChanges_def git_checkoutRemoteBranch_def
      runShellScript_def bind_def perform_def succeeds_def failing_env_simps setUp_calls_def)

lemma failing_one_branch:
  "b \<noteq> ''broken'' \<Longrightarrow> one_branch failing_env e d b s =
     (Inr (),
      s\<lparr>trace := trace s @ branch_calls example_env e d b,
        results := merge_result (merge_result (results s) ''post-editor'' b example_result)
                     ''site-editor'' b example_result\<rparr>)"
  by (simp add: one_branch_def testSuites_def Let_def bind_def return_def failing_setUpGitBranch
      failing_runTestSuite branch_calls_def)

lemma example_startEnvironment:
  "startEnvironment example_env example_options initial =
     (Inr (''/tmp/perf'', ''/tmp/env''), \<lparr> trace = example_start, results = [] \<rparr>)"
  by (simp add: startEnvironment_def example_options_def run_if_def if_given_def patchConfig_def
      Let_def bind_def return_def perform_def succeeds_def git_clone_def getRandomTemporaryPath_def
      runShellScript_def readJSONFile_config_def writeFileSync_def example_env_simps initial_def
      example_start_def zipUrl_def zipVersion_examples obj_set_def has_own_def array_index_def
      is_digit_def)

lemma failing_startEnvironment:
  "startEnvironment failing_env example_options initial =
     (Inr (''/tmp/perf'', ''/tmp/env''), \<lparr> trace = example_start, results = [] \<rparr>)"
  by (simp add: startEnvironment_def example_options_def run_if_def if_given_def patchConfig_def
      Let_def bind_def return_def perform_def succeeds_def git_clone_def getRandomTemporaryPath_def
      runShellScript_def readJSONFile_config_def writeFileSync_def failing_env_simps initial_def
      example_start_def zipUrl_def zipVersion_examples obj_set_def has_own_def array_index_def
      is_digit_def)

lemma failing_loop_trunk:
  "branches_loop failing_env e d [''trunk''] \<lparr> trace = t, results = [] \<rparr> =
     (Inr (),
      \<lparr> trace = t @ branch_calls example_env e d ''trunk'',
        results = [(''post-editor'', [(''trunk'', example_result)]),
                   (''site-editor'', [(''trunk'', example_result)])] \<rparr>)"
  by (simp add: branches_loop_Cons branches_loop_Nil bind_def return_def failing_one_branch
      example_tables del: branches_loop.simps)

lemma failing_run:
  "runPerformanceTests failing_env (''trunk'' # ''broken'' # rest) example_options initial =
     (Inl (Failed (GitCheckoutRemoteBranch ''/tmp/env'' ''broken'')),
      \<lparr> trace = example_start @ branch_calls example_env ''/tmp/env'' ''/tmp/perf'' ''trunk''
                 @ [GitDiscardLocalChanges ''/tmp/env'',
                    GitCheckoutRemoteBranch ''/tmp/env'' ''broken''],
        results = [(''post-editor'', [(''trunk'', example_result)]),
                   (''site-editor'', [(''trunk'', example_result)])] \<rparr>)"
proof -
  have "branches_loop failing_env ''/tmp/env'' ''/tmp/perf'' (''trunk'' # ''broken'' # rest)
      \<lparr> trace = example_start, results = [] \<rparr> =
     (Inl (Failed (GitCheckoutRemoteBranch ''/tmp/env'' ''broken'')),
      \<lparr> trace = example_start @ branch_calls example_env ''/tmp/env'' ''/tmp/perf'' ''trunk''
                 @ [GitDiscardLocalChanges ''/tmp/env'',
                    GitCheckoutRemoteBranch ''/tmp/env'' ''broken''],
        results = [(''post-editor'', [(''trunk'', example_result)]),
                   (''site-editor'', [(''trunk'', example_result)])] \<rparr>)"
    by (simp add: branches_loop_Cons one_branch_def [of _ _ _ "''broken''"] bind_def
        failing_one_branch failing_setUpGitBranch example_tables del: branches_loop.simps)
  then show ?thesis
    by (simp add: runPerformanceTests_started [OF failing_startEnvironment] default_branches_def
        bind_def del: branches_loop.simps)
qed

theorem setUp_failure_is_fatal_witness:
  "startEnvironment failing_env example_options initial =
     (Inr (''/tmp/perf'', ''/tmp/env''), \<lparr> trace = example_start, results = [] \<rparr>)
   \<and> default_branches [''trunk'', ''broken'', ''later''] = [''trunk''] @ ''broken'' # [''later'']
   \<and> branches_loop failing_env ''/tmp/env'' ''/tmp/perf'' [''trunk'']
       \<lparr> trace = example_start, results = [] \<rparr> =
       (Inr (),
        \<lparr> trace = example_start @ branch_calls example_env ''/tmp/env'' ''/tmp/perf'' ''trunk'',
          results = [(''post-editor'', [(''trunk'', example_result)]),
                     (''site-editor'', [(''trunk'', example_result)])] \<rparr>)
   \<and> runPerformanceTests failing_env [''trunk'', ''broken'', ''later''] example_options initial =
       (Inl (Failed (GitCheckoutRemoteBranch ''/tmp/env'' ''broken'')),
        \<lparr> trace = example_start @ branch_calls example_env ''/tmp/env'' ''/tmp/perf'' ''trunk''
                   @ [GitDiscardLocalChanges ''/tmp/env'',
                      GitCheckoutRemoteBranch ''/tmp/env'' ''broken''],
          results = [(''post-editor'', [(''trunk'', example_result)]),
                     (''site-editor'', [(''trunk'', example_result)])] \<rparr>)"
proof -
  let ?T = "[(''post-editor'', [(''trunk'', example_result)]),
             (''site-editor'', [(''trunk'', example_result)])]"
  let ?S1 = "\<lparr> trace = example_start @ branch_calls example_env ''/tmp/env'' ''/tmp/perf'' ''trunk'',
               results = ?T \<rparr>"
  let ?S2 = "\<lparr> trace = example_start @ branch_calls example_env ''/tmp/env'' ''/tmp/perf'' ''trunk''
                 @ [GitDiscardLocalChanges ''/tmp/env'',
                    GitCheckoutRemoteBranch ''/tmp/env'' ''broken''],
               results = ?T \<rparr>"
  have split: "default_branches [''trunk'', ''broken'', ''later'']
      = [''trunk''] @ ''broken'' # [''later'']"
    by (simp add: default_branches_def)
  have before: "branches_loop failing_env ''/tmp/env'' ''/tmp/perf'' [''trunk'']
      (\<lparr> trace = example_start, results = [] \<rparr>\<lparr>results := []\<rparr>) = (Inr (), ?S1)"
    by (simp add: failing_loop_trunk del: branches_loop.simps)
  have fail: "setUpGitBranch failing_env ''broken'' ''/tmp/env'' ?S1
      = (Inl (Failed (GitCheckoutRemoteBranch ''/tmp/env'' ''broken'')), ?S2)"
    by (simp add: failing_setUpGitBranch)
  from setUp_failure_is_fatal [OF failing_startEnvironment split before fail]
  have "runPerformanceTests failing_env [''trunk'', ''broken'', ''later''] example_options initial
      = (Inl (Failed (GitCheckoutRemoteBranch ''/tmp/env'' ''broken'')), ?S2)"
    by blast
  with split before failing_startEnvironment show ?thesis
    by (simp del: branches_loop.simps)
qed

theorem stop_unconditional_counterexample:
  "fst (startEnvironment failing_env example_options initial) = Inr (''/tmp/perf'', ''/tmp/env'')
   \<and> fst (runPerformanceTests failing_env [''trunk'', ''broken''] example_options initial)
       = Inl (Failed (GitCheckoutRemoteBranch ''/tmp/env'' ''broken''))
   \<and> \<not> list_ex is_stop
         (trace (snd (runPerformanceTests failing_env [''trunk'', ''broken''] example_options
            initial)))"
  by (simp add: failing_startEnvironment failing_run example_start_def branch_calls_def
      setUp_calls_def run_calls_def testSuites_def is_stop_def test_command_def)

theorem stop_follows_completed_loop_witness:
  "list_ex is_stop (trace (snd (runPerformanceTests example_env [] example_options initial)))
   \<and> \<not> list_ex is_stop
         (trace (snd (runPerformanceTests failing_env [''trunk'', ''broken''] example_options
            initial)))"
proof -
  let ?ok = "runPerformanceTests example_env [] example_options initial"
  let ?ko = "runPerformanceTests failing_env [''trunk'', ''broken''] example_options initial"
  have loop_ok: "branches_loop example_env ''/tmp/env'' ''/tmp/perf'' (default_branches [])
      (\<lparr> trace = example_start, results = [] \<rparr>\<lparr>results := []\<rparr>) =
      (Inr (),
       \<lparr> trace = example_start @ branch_calls example_env ''/tmp/env'' ''/tmp/perf'' ''trunk'',
         results = [(''post-editor'', [(''trunk'', example_result)]),
                    (''site-editor'', [(''trunk'', example_result)])] \<rparr>)"
    by (simp add: default_branches_def branches_loop_Cons branches_loop_Nil bind_def return_def
        example_one_branch example_tables del: branches_loop.simps)
  have "?ok = (fst ?ok, snd ?ok)" by simp
  from stop_follows_completed_loop [OF example_startEnvironment this] loop_ok
  have "\<exists>t. trace (snd ?ok) =
      (example_start @ branch_calls example_env ''/tmp/env'' ''/tmp/perf'' ''trunk'')
      @ RunShellScript ''npm run wp-env stop'' (Some ''/tmp/env'') # t"
    by (metis state.select_convs(1))
  then have ok: "list_ex is_stop (trace (snd ?ok))"
    by (auto simp: list_ex_iff is_stop_def)
  have loop_ko: "branches_loop failing_env ''/tmp/env'' ''/tmp/perf''
      (default_branches [''trunk'', ''broken''])
      (\<lparr> trace = example_start, results = [] \<rparr>\<lparr>results := []\<rparr>) =
     (Inl (Failed (GitCheckoutRemoteBranch ''/tmp/env'' ''broken'')),
      \<lparr> trace = example_start @ branch_calls example_env ''/tmp/env'' ''/tmp/perf'' ''trunk''
                 @ [GitDiscardLocalChanges ''/tmp/env'',
                    GitCheckoutRemoteBranch ''/tmp/env'' ''broken''],
        results = [(''post-editor'', [(''trunk'', example_result)]),
                   (''site-editor'', [(''trunk'', example_result)])] \<rparr>)"
    by (simp add: default_branches_def branches_loop_Cons branches_loop_Nil
        one_branch_def [of _ _ _ "''broken''"] bind_def
        failing_one_branch failing_setUpGitBranch example_tables del: branches_loop.simps)
  have "?ko = (fst ?ko, snd ?ko)" by simp
  from stop_follows_completed_loop [OF failing_startEnvironment this] loop_ko
  have "\<forall>c \<in> set (trace (snd ?ko)). \<not> is_stop c"
    by blast
  then have ko: "\<not> list_ex is_stop (trace (snd ?ko))"
    by (simp add: list_ex_iff)
  from ok ko show ?thesis by simp
qed

section \<open>Properties of the report\<close>

lemma keys_entries: "keys (entries val) = metrics"
  by (simp add: keys_def entries_def metrics_def)

lemma distinct_metrics: "distinct metrics" "''__proto__'' \<notin> set metrics"
  by (simp_all add: metrics_def)

lemma obj_get_update_key:
  "obj_get (update_key k v obj) k' =
     (if k' = k \<and> k \<in> set (keys obj) then Some v else obj_get obj k')"
  by (simp add: obj_get_def keys_def map_of_update_key)

lemma lookup2_update_key:
  "k \<in> set (keys table) \<Longrightarrow>
     lookup2 (update_key k row table) k1 k2 =
       (if k1 = k then obj_get row k2 else lookup2 table k1 k2)"
  by (simp add: lookup2_def obj_get_update_key)

lemma obj_get_obj_assign:
  "obj_get (obj_assign obj k v) k' =
     (if k = ''__proto__'' \<and> obj_get obj k = None then obj_get obj k'
      else if k' = k then Some v else obj_get obj k')"
proof -
  have "has_own obj k \<longleftrightarrow> obj_get obj k \<noteq> None"
    by (simp add: has_own_def obj_get_def map_of_eq_None_iff)
  then show ?thesis
    by (auto simp: obj_assign_def obj_get_obj_set)
qed

lemma invert_keys_Cons:
  "invert_keys E key (p # ents) acc = invert_keys E key ents (invert_keys E key [p] acc)"
  by (cases p) (simp add: Let_def)

lemma invert_keys_single:
  assumes "entry \<noteq> ''__proto__''" and "\<forall>m. lookup2 acc m ''__proto__'' = None"
  shows "lookup2 (invert_keys E key [(entry, v)] acc) m b =
     (if m = entry \<and> b = key \<and> key \<noteq> ''__proto__''
      then (case cell E v of Some c \<Rightarrow> Some c | None \<Rightarrow> lookup2 acc m b)
      else lookup2 acc m b)"
proof (cases "obj_get acc entry")
  case None
  let ?acc1 = "obj_set acc entry []"
  have acc1: "obj_assign acc entry [] = ?acc1"
    using assms(1) by (simp add: obj_assign_def)
  have get1: "obj_get ?acc1 entry = Some []" by (simp add: obj_get_obj_set)
  have in1: "entry \<in> set (keys ?acc1)" by (simp add: set_keys_obj_set)
  have l1: "lookup2 ?acc1 m b = lookup2 acc m b"
    by (cases "m = entry") (simp_all add: lookup2_def obj_get_obj_set obj_get_Nil None)
  have l0: "lookup2 acc entry b = None"
    by (simp add: lookup2_def None)
  show ?thesis
  proof (cases "isFinite v")
    case True
    have eq: "invert_keys E key [(entry, v)] acc =
        update_key entry (obj_assign [] key (toString E v @ '' ms'')) ?acc1"
      by (simp add: Let_def acc1 get1 None True)
    show ?thesis
      unfolding eq lookup2_update_key [OF in1] l1
      by (auto simp: obj_get_obj_assign obj_get_Nil cell_def True l0)
  next
    case False
    then show ?thesis by (simp add: Let_def acc1 None l1 cell_def)
  qed
next
  case (Some row)
  then have in0: "entry \<in> set (keys acc)"
    using obj_get_None_iff [of acc entry] by simp
  from assms(2) have "lookup2 acc entry ''__proto__'' = None" by blast
  with Some have noproto: "obj_get row ''__proto__'' = None"
    by (simp add: lookup2_def)
  have l0: "lookup2 acc entry b = obj_get row b"
    by (simp add: lookup2_def Some)
  show ?thesis
  proof (cases "isFinite v")
    case True
    have eq: "invert_keys E key [(entry, v)] acc =
        update_key entry (obj_assign row key (toString E v @ '' ms'')) acc"
      by (simp add: Let_def Some True)
    show ?thesis
      unfolding eq lookup2_update_key [OF in0]
      by (auto simp: obj_get_obj_assign cell_def True l0 noproto)
  next
    case False
    then show ?thesis by (simp add: Let_def Some cell_def)
  qed
qed

lemma invert_keys_lookup:
  assumes "distinct (map fst ents)" "''__proto__'' \<notin> set (map fst ents)"
    and "\<forall>m. lookup2 acc m ''__proto__'' = None"
  shows "lookup2 (invert_keys E key ents acc) m b =
     (if b = key \<and> key \<noteq> ''__proto__''
      then (case map_of ents m of
              Some v \<Rightarrow> (case cell E v of Some c \<Rightarrow> Some c | None \<Rightarrow> lookup2 acc m b)
            | None \<Rightarrow> lookup2 acc m b)
      else lookup2 acc m b)"
  using assms
proof (induction ents arbitrary: acc)
  case Nil
  then show ?case by simp
next
  case (Cons p ents)
  obtain entry v where p: "p = (entry, v)" by (cases p)
  define acc2 where "acc2 = invert_keys E key [(entry, v)] acc"
  from Cons.prems have entry: "entry \<noteq> ''__proto__''" "entry \<notin> set (map fst ents)"
    and rest: "distinct (map fst ents)" "''__proto__'' \<notin> set (map fst ents)"
    by (auto simp: p)
  have single: "lookup2 acc2 m b =
     (if m = entry \<and> b = key \<and> key \<noteq> ''__proto__''
      then (case cell E v of Some c \<Rightarrow> Some c | None \<Rightarrow> lookup2 acc m b)
      else lookup2 acc m b)" for m b
    unfolding acc2_def using entry(1) Cons.prems(3) by (rule invert_keys_single)
  have inv: "\<forall>m. lookup2 acc2 m ''__proto__'' = None"
  proof
    fix m
    from Cons.prems(3) have "lookup2 acc m ''__proto__'' = None" by blast
    then show "lookup2 acc2 m ''__proto__'' = None"
      by (cases "key = ''__proto__''") (simp_all add: single)
  qed
  have none: "map_of ents entry = None"
    using entry(2) by (simp add: map_of_eq_None_iff)
  have "invert_keys E key (p # ents) acc = invert_keys E key ents acc2"
    unfolding acc2_def p by (rule invert_keys_Cons)
  then have "lookup2 (invert_keys E key (p # ents) acc) m b =
      lookup2 (invert_keys E key ents acc2) m b"
    by (simp only:)
  also have "\<dots> =
     (if b = key \<and> key \<noteq> ''__proto__''
      then (case map_of ents m of
              Some v \<Rightarrow> (case cell E v of Some c \<Rightarrow> Some c | None \<Rightarrow> lookup2 acc2 m b)
            | None \<Rightarrow> lookup2 acc2 m b)
      else lookup2 acc2 m b)"
    using rest inv by (rule Cons.IH)
  also have "\<dots> =
     (if b = key \<and> key \<noteq> ''__proto__''
      then (case map_of (p # ents) m of
              Some v \<Rightarrow> (case cell E v of Some c \<Rightarrow> Some c | None \<Rightarrow> lookup2 acc m b)
            | None \<Rightarrow> lookup2 acc m b)
      else lookup2 acc m b)"
  proof (cases "m = entry")
    case True
    then show ?thesis by (auto simp: none single p)
  next
    case False
    then have "lookup2 acc2 m b = lookup2 acc m b" by (simp add: single)
    with False show ?thesis by (auto simp: p split: option.splits)
  qed
  finally show ?case .
qed

lemma invert_foldl_lookup:
  assumes "distinct (map fst row)" and "\<forall>m. lookup2 acc m ''__proto__'' = None"
  shows "lookup2 (foldl (\<lambda>acc (key, val). invert_keys E key (entries val) acc) acc row) m b =
     (case map_of row b of
        None \<Rightarrow> lookup2 acc m b
      | Some val \<Rightarrow>
          if b = ''__proto__'' then lookup2 acc m b
          else (case map_of (entries val) m of
                  Some v \<Rightarrow> (case cell E v of Some c \<Rightarrow> Some c | None \<Rightarrow> lookup2 acc m b)
                | None \<Rightarrow> lookup2 acc m b))"
  using assms
proof (induction row arbitrary: acc)
  case Nil
  then show ?case by simp
next
  case (Cons p row)
  obtain key val where p: "p = (key, val)" by (cases p)
  define acc1 where "acc1 = invert_keys E key (entries val) acc"
  have ents: "distinct (map fst (entries val))" "''__proto__'' \<notin> set (map fst (entries val))"
    using keys_entries [of val] distinct_metrics by (simp_all add: keys_def)
  have step: "lookup2 acc1 m b =
     (if b = key \<and> key \<noteq> ''__proto__''
      then (case map_of (entries val) m of
              Some v \<Rightarrow> (case cell E v of Some c \<Rightarrow> Some c | None \<Rightarrow> lookup2 acc m b)
            | None \<Rightarrow> lookup2 acc m b)
      else lookup2 acc m b)" for m b
    unfolding acc1_def using ents Cons.prems(2) by (rule invert_keys_lookup)
  have inv: "\<forall>m. lookup2 acc1 m ''__proto__'' = None"
  proof
    fix m
    from Cons.prems(2) have "lookup2 acc m ''__proto__'' = None" by blast
    then show "lookup2 acc1 m ''__proto__'' = None"
      by (cases "key = ''__proto__''") (simp_all add: step)
  qed
  from Cons.prems(1) have dist: "distinct (map fst row)" and fresh: "key \<notin> set (map fst row)"
    by (simp_all add: p)
  have "lookup2 (foldl (\<lambda>acc (key, val). invert_keys E key (entries val) acc) acc (p # row)) m b
      = lookup2 (foldl (\<lambda>acc (key, val). invert_keys E key (entries val) acc) acc1 row) m b"
    by (simp add: p acc1_def)
  also have "\<dots> =
     (case map_of row b of
        None \<Rightarrow> lookup2 acc1 m b
      | Some val \<Rightarrow>
          if b = ''__proto__'' then lookup2 acc1 m b
          else (case map_of (entries val) m of
                  Some v \<Rightarrow> (case cell E v of Some c \<Rightarrow> Some c | None \<Rightarrow> lookup2 acc1 m b)
                | None \<Rightarrow> lookup2 acc1 m b))"
    using dist inv by (rule Cons.IH)
  also have "\<dots> =
     (case map_of (p # row) b of
        None \<Rightarrow> lookup2 acc m b
      | Some val \<Rightarrow>
          if b = ''__proto__'' then lookup2 acc m b
          else (case map_of (entries val) m of
                  Some v \<Rightarrow> (case cell E v of Some c \<Rightarrow> Some c | None \<Rightarrow> lookup2 acc m b)
                | None \<Rightarrow> lookup2 acc m b))"
  proof (cases "b = key")
    case True
    with fresh have "map_of row b = None" by (simp add: map_of_eq_None_iff)
    with True show ?thesis by (auto simp: p step split: option.splits)
  next
    case False
    then have "lookup2 acc1 m b = lookup2 acc m b" by (simp add: step)
    with False show ?thesis by (auto simp: p split: option.splits)
  qed
  finally show ?case .
qed

lemma invert_lookup:
  assumes "distinct (keys row)"
  shows "lookup2 (invert E row) metric branch =
     (case obj_get row branch of
        None \<Rightarrow> None
      | Some val \<Rightarrow>
          if branch = ''__proto__'' then None
          else (case obj_get (entries val) metric of Some v \<Rightarrow> cell E v | None \<Rightarrow> None))"
proof -
  have "distinct (map fst row)" using assms by (simp add: keys_def)
  moreover have "\<forall>m. lookup2 ([] :: string obj obj) m ''__proto__'' = None"
    by (simp add: lookup2_Nil)
  ultimately show ?thesis
    unfolding invert_def obj_get_def
    by (subst invert_foldl_lookup) (auto simp: lookup2_Nil split: option.splits)
qed

lemma covers_first:
  "covers (merge_result (merge_result [] ''post-editor'' b r1) ''site-editor'' b r2) [b]"
proof -
  let ?T1 = "merge_result [] ''post-editor'' b r1"
  let ?T2 = "merge_result ?T1 ''site-editor'' b r2"
  have none: "obj_get ?T1 ''site-editor'' = None"
    by (simp add: obj_get_merge_result obj_get_Nil)
  have row: "distinct (keys (obj_set [] b r)) \<and> set (keys (obj_set [] b r)) = set [b]"
    for r :: 'a
    by (simp add: distinct_keys_obj_set set_keys_obj_set keys_Nil)
  have "obj_get ?T2 ''post-editor'' = Some (obj_set [] b r1)"
    "obj_get ?T2 ''site-editor'' = Some (obj_set [] b r2)"
    by (simp_all add: obj_get_merge_result none spread_def obj_get_Nil)
  with row show ?thesis
    by (simp add: covers_def testSuites_def)
qed

lemma covers_next:
  assumes "covers table bs"
  shows "covers (merge_result (merge_result table ''post-editor'' b r1) ''site-editor'' b r2)
           (bs @ [b])"
proof -
  let ?T1 = "merge_result table ''post-editor'' b r1"
  let ?T2 = "merge_result ?T1 ''site-editor'' b r2"
  from assms obtain row1 row2 where
    row1: "obj_get table ''post-editor'' = Some row1" "distinct (keys row1)"
      "set (keys row1) = set bs" and
    row2: "obj_get table ''site-editor'' = Some row2" "distinct (keys row2)"
      "set (keys row2) = set bs"
    unfolding covers_def testSuites_def by auto
  have step: "distinct (keys (obj_set row b r)) \<and> set (keys (obj_set row b r)) = set (bs @ [b])"
    if "distinct (keys row)" "set (keys row) = set bs" for row and r :: 'a
    using that by (simp add: distinct_keys_obj_set set_keys_obj_set)
  have "obj_get ?T2 ''post-editor'' = Some (obj_set row1 b r1)"
    "obj_get ?T2 ''site-editor'' = Some (obj_set row2 b r2)"
    by (simp_all add: obj_get_merge_result row1 row2 spread_def)
  with step [OF row1(2,3)] step [OF row2(2,3)] show ?thesis
    by (simp add: covers_def testSuites_def)
qed

lemma branches_loop_covers:
  assumes "branches_loop E e d bs s = (Inr (), s')"
    and "if done = [] then results s = [] else covers (results s) done"
  shows "if done @ bs = [] then results s' = [] else covers (results s') (done @ bs)"
  using assms
proof (induction bs arbitrary: s "done")
  case Nil
  then show ?case by (auto simp: return_def split: if_splits)
next
  case (Cons b bs)
  from Cons.prems(1) obtain s1 r1 r2 where
    s1: "results s1 =
      merge_result (merge_result (results s) ''post-editor'' b r1) ''site-editor'' b r2"
    and rest: "branches_loop E e d bs s1 = (Inr (), s')"
    by (rule branches_loop_step)
  have "covers (results s1) (done @ [b])"
  proof (cases "done = []")
    case True
    with Cons.prems(2) have "results s = []" by simp
    with True show ?thesis by (simp add: s1 covers_first)
  next
    case False
    with Cons.prems(2) have "covers (results s) done" by simp
    then show ?thesis unfolding s1 by (rule covers_next)
  qed
  then have "if done @ [b] = [] then results s1 = [] else covers (results s1) (done @ [b])"
    by simp
  from Cons.IH [OF rest this] show ?case by simp
qed

lemma report_loop_Inr:
  assumes "report_loop E suites s = (Inr (), s')"
  shows "results s' = results s
    \<and> (\<forall>suite \<in> set suites. \<exists>row.
          obj_get (results s) suite = Some row
        \<and> ConsoleTable (invert E row) \<in> set (trace s')
        \<and> WriteFileSync (path_resolve E (dirname E) ''../../../'' (resultsFilename suite))
            (json_of_results row) \<in> set (trace s'))"
  using assms
proof (induction suites arbitrary: s)
  case Nil
  then show ?case by (simp add: return_def)
next
  case (Cons suite suites)
  from Cons.prems obtain row where row: "obj_get (results s) suite = Some row"
    by (cases "obj_get (results s) suite") (simp_all add: throw_def)
  let ?c1 = "ConsoleTable (invert E row)"
  let ?c2 = "WriteFileSync (path_resolve E (dirname E) ''../../../'' (resultsFilename suite))
      (json_of_results row)"
  let ?s2 = "s\<lparr>trace := trace s @ [?c1, ?c2]\<rparr>"
  have ok: "written E (trace s @ [?c1]) (path_resolve E (dirname E) ''../../../''
      (resultsFilename suite)) (json_of_results row)"
    using Cons.prems row
    by (auto simp: bind_def console_table_def writeFileSync_def perform_def succeeds_def
        split: if_splits)
  with Cons.prems row have rest: "report_loop E suites ?s2 = (Inr (), s')"
    by (simp add: bind_def console_table_def writeFileSync_def perform_def succeeds_def)
  from report_loop_trace [OF rest] obtain t where t: "trace s' = trace ?s2 @ t" by blast
  from Cons.IH [OF rest] have IH: "results s' = results s"
    "\<forall>suite \<in> set suites. \<exists>row.
          obj_get (results s) suite = Some row
        \<and> ConsoleTable (invert E row) \<in> set (trace s')
        \<and> WriteFileSync (path_resolve E (dirname E) ''../../../'' (resultsFilename suite))
            (json_of_results row) \<in> set (trace s')"
    by simp_all
  from t have "?c1 \<in> set (trace s')" "?c2 \<in> set (trace s')" by simp_all
  with row IH show ?case by auto
qed

lemma runPerformanceTests_Inr:
  assumes "runPerformanceTests E branches options s = (Inr (), s')"
  shows "\<exists>perfDir envDir s0 s1 s2.
      startEnvironment E options s = (Inr (perfDir, envDir), s0)
    \<and> branches_loop E envDir perfDir (default_branches branches) (s0\<lparr>results := []\<rparr>)
        = (Inr (), s1)
    \<and> stopEnvironment E envDir s1 = (Inr (), s2)
    \<and> report_loop E testSuites s2 = (Inr (), s')"
  using assms
  by (auto simp: runPerformanceTests_def bind_Inr return_def)

lemma keeps_stopEnvironment: "keeps_results (stopEnvironment E e)"
  by (simp add: stopEnvironment_def runShellScript_def keeps_perform)

lemma json_fields_results:
  "json_fields (json_of_results row) =
     map (\<lambda>(branch, val). (branch, JObject (map (\<lambda>(k, v). (k, json_of_number v)) (entries val))))
       row"
  by (simp add: json_fields_def json_of_results_def)

lemma json_keys: "map fst (json_fields (json_of_results row)) = keys row"
  by (induction row) (auto simp: json_fields_results keys_def)

lemma json_lookup:
  "obj_get row branch = Some val \<Longrightarrow>
     map_of (json_fields (json_of_results row)) branch =
       Some (JObject (map (\<lambda>(k, v). (k, json_of_number v)) (entries val)))"
  unfolding json_fields_results obj_get_def
  by (induction row) (auto split: if_splits)

text \<open>
  The report of a completed session, for each of the two suites: the row of the suite in
  \<open>results\<close> has the branches of the session as its keys; the table that is displayed
  has an entry at a metric and a branch exactly when the branch is in the row, its name
  is not \<open>__proto__\<close>, the metric is one of the thirteen keys and its value is finite, and
  the entry is the value followed by \<open>ms\<close>; the file named after the suite receives the
  whole row: each branch, with all thirteen keys, a value that is not finite being
  written as \<open>null\<close>.
\<close>

lemma report_cells_and_file:
  assumes run: "runPerformanceTests E branches options initial = (Inr (), s')"
    and suite: "suite \<in> set testSuites"
  shows "\<exists>row.
      obj_get (results s') suite = Some row
    \<and> set (keys row) = set (default_branches branches)
    \<and> ConsoleTable (invert E row) \<in> set (trace s')
    \<and> (\<forall>metric branch. lookup2 (invert E row) metric branch =
         (case obj_get row branch of
            None \<Rightarrow> None
          | Some val \<Rightarrow>
              if branch = ''__proto__'' then None
              else (case obj_get (entries val) metric of Some v \<Rightarrow> cell E v | None \<Rightarrow> None)))
    \<and> WriteFileSync
         (path_resolve E (dirname E) ''../../../'' (suite @ ''-performance-results.json''))
         (json_of_results row) \<in> set (trace s')
    \<and> map fst (json_fields (json_of_results row)) = keys row
    \<and> (\<forall>branch val. obj_get row branch = Some val \<longrightarrow>
         map_of (json_fields (json_of_results row)) branch =
           Some (JObject (map (\<lambda>(k, v). (k, json_of_number v)) (entries val)))
         \<and> keys (entries val) = metrics)"
proof -
  from run obtain perfDir envDir s0 s1 s2 where
    loop: "branches_loop E envDir perfDir (default_branches branches) (s0\<lparr>results := []\<rparr>)
        = (Inr (), s1)" and
    stop: "stopEnvironment E envDir s1 = (Inr (), s2)" and
    report: "report_loop E testSuites s2 = (Inr (), s')"
    using runPerformanceTests_Inr by blast
  have ne: "default_branches branches \<noteq> []" by (simp add: default_branches_def)
  have "if [] @ default_branches branches = [] then results s1 = []
        else covers (results s1) ([] @ default_branches branches)"
    using loop by (rule branches_loop_covers) simp
  with ne have cov: "covers (results s1) (default_branches branches)" by simp
  have r2: "results s2 = results s1"
    using keeps_stopEnvironment stop unfolding keeps_results_def by blast
  from report_loop_Inr [OF report] suite obtain row where
    r': "results s' = results s2" and
    row: "obj_get (results s2) suite = Some row" and
    table: "ConsoleTable (invert E row) \<in> set (trace s')" and
    wrote: "WriteFileSync (path_resolve E (dirname E) ''../../../'' (resultsFilename suite))
            (json_of_results row) \<in> set (trace s')"
    by blast
  from cov suite row have dist: "distinct (keys row)"
    and keys: "set (keys row) = set (default_branches branches)"
    unfolding covers_def r2 by auto
  have cells: "\<forall>metric branch. lookup2 (invert E row) metric branch =
         (case obj_get row branch of
            None \<Rightarrow> None
          | Some val \<Rightarrow>
              if branch = ''__proto__'' then None
              else (case obj_get (entries val) metric of Some v \<Rightarrow> cell E v | None \<Rightarrow> None))"
    using invert_lookup [OF dist] by blast
  have json: "\<forall>branch val. obj_get row branch = Some val \<longrightarrow>
         map_of (json_fields (json_of_results row)) branch =
           Some (JObject (map (\<lambda>(k, v). (k, json_of_number v)) (entries val)))
         \<and> keys (entries val) = metrics"
    by (simp add: json_lookup keys_entries)
  from row have "obj_get (results s') suite = Some row" by (simp add: r')
  with keys table cells wrote json json_keys [of row] show ?thesis
    unfolding resultsFilename_def by blast
qed

lemma example_tables_single:
  "merge_result (merge_result [] ''post-editor'' b r1) ''site-editor'' b r2
     = [(''post-editor'', [(b, r1)]), (''site-editor'', [(b, r2)])]"
proof -
  have "obj_set [] b r = [(b, r)]" for r :: 'a
    by (cases "array_index b") (simp_all add: obj_set_def has_own_def)
  then show ?thesis
    by (simp add: merge_result_def obj_set_def obj_get_def has_own_def spread_def
        is_name_suites [unfolded is_name_def])
qed

lemma example_stopEnvironment:
  "stopEnvironment example_env e s =
     (Inr (), s\<lparr>trace := trace s @ [RunShellScript ''npm run wp-env stop'' (Some e)]\<rparr>)"
  by (simp add: stopEnvironment_def runShellScript_def perform_def succeeds_def example_env_simps)

lemma example_report_loop:
  "report_loop example_env testSuites \<lparr> trace = t, results = [(''post-editor'', row1), (''site-editor'', row2)] \<rparr> =
     (Inr (),
      \<lparr> trace = t @
          [ ConsoleTable (invert example_env row1),
            WriteFileSync ''/gutenberg/post-editor-performance-results.json'' (json_of_results row1),
            ConsoleTable (invert example_env row2),
            WriteFileSync ''/gutenberg/site-editor-performance-results.json'' (json_of_results row2) ],
        results = [(''post-editor'', row1), (''site-editor'', row2)] \<rparr>)"
  by (simp add: testSuites_def obj_get_def bind_def return_def console_table_def
      writeFileSync_def perform_def succeeds_def example_env_simps resultsFilename_def)

lemma example_run_single:
  "runPerformanceTests example_env [b] example_options initial =
     (Inr (),
      \<lparr> trace = example_start @ branch_calls example_env ''/tmp/env'' ''/tmp/perf'' b @
          [ RunShellScript ''npm run wp-env stop'' (Some ''/tmp/env''),
            ConsoleTable (invert example_env [(b, example_result)]),
            WriteFileSync ''/gutenberg/post-editor-performance-results.json''
              (json_of_results [(b, example_result)]),
            ConsoleTable (invert example_env [(b, example_result)]),
            WriteFileSync ''/gutenberg/site-editor-performance-results.json''
              (json_of_results [(b, example_result)]) ],
        results = [(''post-editor'', [(b, example_result)]),
                   (''site-editor'', [(b, example_result)])] \<rparr>)"
proof -
  have loop: "branches_loop example_env ''/tmp/env'' ''/tmp/perf'' (default_branches [b])
      \<lparr> trace = example_start, results = [] \<rparr> =
      (Inr (),
       \<lparr> trace = example_start @ branch_calls example_env ''/tmp/env'' ''/tmp/perf'' b,
         results = [(''post-editor'', [(b, example_result)]),
                    (''site-editor'', [(b, example_result)])] \<rparr>)"
    by (simp add: default_branches_def branches_loop_Cons branches_loop_Nil bind_def return_def
        example_one_branch example_tables_single del: branches_loop.simps)
  show ?thesis
    unfolding runPerformanceTests_started [OF example_startEnvironment]
    by (simp add: bind_def loop example_stopEnvironment example_report_loop
        del: branches_loop.simps report_loop.simps)
qed

lemma example_invert_proto:
  "lookup2 (invert example_env [(''__proto__'', example_result)]) ''load'' ''__proto__'' = None"
  by (simp add: invert_lookup keys_def obj_get_def)


lemma report_cells_and_file_example:
  "fst (runPerformanceTests example_env [''trunk''] example_options initial) = Inr ()
   \<and> ''post-editor'' \<in> set testSuites
   \<and> obj_get (results (snd (runPerformanceTests example_env [''trunk''] example_options initial)))
       ''post-editor'' = Some [(''trunk'', example_result)]
   \<and> ConsoleTable (invert example_env [(''trunk'', example_result)])
       \<in> set (trace (snd (runPerformanceTests example_env [''trunk''] example_options initial)))
   \<and> lookup2 (invert example_env [(''trunk'', example_result)]) ''load'' ''trunk''
       = Some ''100 ms''
   \<and> lookup2 (invert example_env [(''trunk'', example_result)]) ''inserterOpen'' ''trunk'' = None
   \<and> map_of (json_fields (json_of_results [(''trunk'', example_result)])) ''trunk''
       = Some (JObject
           [ (''load'', JNumber 100), (''type'', JNumber 20),
             (''minType'', JNumber 10), (''maxType'', JNumber 30),
             (''focus'', JNumber 1.5), (''minFocus'', JNumber 1), (''maxFocus'', JNumber 2),
             (''inserterOpen'', JNull), (''minInserterOpen'', JNull),
             (''maxInserterOpen'', JNull),
             (''inserterHover'', JNumber 12.35), (''minInserterHover'', JNumber 12.35),
             (''maxInserterHover'', JNumber 12.35) ])"
proof -
  let ?run = "runPerformanceTests example_env [''trunk''] example_options initial"
  let ?row = "[(''trunk'', example_result)]"
  have finished: "fst ?run = Inr ()" by (simp add: example_run_single)
  then have run: "?run = (Inr (), snd ?run)" by (simp add: prod_eq_iff)
  have suite: "''post-editor'' \<in> set testSuites" by (simp add: testSuites_def)
  have row: "obj_get (results (snd ?run)) ''post-editor'' = Some ?row"
    by (simp add: example_run_single obj_get_def)
  from report_cells_and_file [OF run suite] obtain row' where
    "obj_get (results (snd ?run)) ''post-editor'' = Some row'"
    "ConsoleTable (invert example_env row') \<in> set (trace (snd ?run))"
    "\<forall>metric branch. lookup2 (invert example_env row') metric branch =
         (case obj_get row' branch of
            None \<Rightarrow> None
          | Some val \<Rightarrow>
              if branch = ''__proto__'' then None
              else (case obj_get (entries val) metric of
                      Some v \<Rightarrow> cell example_env v | None \<Rightarrow> None))"
    "\<forall>branch val. obj_get row' branch = Some val \<longrightarrow>
         map_of (json_fields (json_of_results row')) branch =
           Some (JObject (map (\<lambda>(k, v). (k, json_of_number v)) (entries val)))
         \<and> keys (entries val) = metrics"
    by blast
  with row have facts:
    "ConsoleTable (invert example_env ?row) \<in> set (trace (snd ?run))"
    "\<forall>metric branch. lookup2 (invert example_env ?row) metric branch =
         (case obj_get ?row branch of
            None \<Rightarrow> None
          | Some val \<Rightarrow>
              if branch = ''__proto__'' then None
              else (case obj_get (entries val) metric of
                      Some v \<Rightarrow> cell example_env v | None \<Rightarrow> None))"
    "\<forall>branch val. obj_get ?row branch = Some val \<longrightarrow>
         map_of (json_fields (json_of_results ?row)) branch =
           Some (JObject (map (\<lambda>(k, v). (k, json_of_number v)) (entries val)))
         \<and> keys (entries val) = metrics"
    by simp_all
  have get: "obj_get ?row ''trunk'' = Some example_result" by (simp add: obj_get_def)
  have cells: "lookup2 (invert example_env ?row) ''load'' ''trunk'' = Some ''100 ms''"
    "lookup2 (invert example_env ?row) ''inserterOpen'' ''trunk'' = None"
    unfolding facts(2) [rule_format]
    by (simp_all add: obj_get_def entries_def example_result_def cell_def example_env_simps)
  from facts(3) get have "map_of (json_fields (json_of_results ?row)) ''trunk'' =
      Some (JObject (map (\<lambda>(k, v). (k, json_of_number v)) (entries example_result)))"
    by blast
  then have json: "map_of (json_fields (json_of_results ?row)) ''trunk''
       = Some (JObject
           [ (''load'', JNumber 100), (''type'', JNumber 20),
             (''minType'', JNumber 10), (''maxType'', JNumber 30),
             (''focus'', JNumber 1.5), (''minFocus'', JNumber 1), (''maxFocus'', JNumber 2),
             (''inserterOpen'', JNull), (''minInserterOpen'', JNull),
             (''maxInserterOpen'', JNull),
             (''inserterHover'', JNumber 12.35), (''minInserterHover'', JNumber 12.35),
             (''maxInserterHover'', JNumber 12.35) ])"
    by (simp add: entries_def example_result_def)
  from finished suite row facts(1) cells json show ?thesis by blast
qed

text \<open>
  Claim C9. For every branch whose name is not \<open>__proto__\<close> the claim holds, by the lemma
  above: a cell is displayed exactly when the value is finite, and the file receives the
  whole row without a filter. It fails for a branch named \<open>__proto__\<close>: in the session
  below that branch is measured and its results are recorded, with the finite load 100,
  and the table that is displayed has no cell for it.
\<close>

theorem report_skips_proto_branch:
  "fst (runPerformanceTests example_env [''__proto__''] example_options initial) = Inr ()
   \<and> lookup2 (results (snd (runPerformanceTests example_env [''__proto__''] example_options
        initial))) ''post-editor'' ''__proto__'' = Some example_result
   \<and> isFinite (load example_result)
   \<and> ConsoleTable (invert example_env [(''__proto__'', example_result)])
       \<in> set (trace (snd (runPerformanceTests example_env [''__proto__''] example_options
            initial)))
   \<and> lookup2 (invert example_env [(''__proto__'', example_result)]) ''load'' ''__proto__'' = None"
proof -
  have "lookup2 [(''post-editor'', [(''__proto__'', example_result)]),
                 (''site-editor'', [(''__proto__'', example_result)])]
      ''post-editor'' ''__proto__'' = Some example_result"
    by (simp add: lookup2_def obj_get_def)
  moreover have "isFinite (load example_result)"
    by (simp add: example_result_def)
  ultimately show ?thesis
    by (simp add: example_run_single example_invert_proto)
qed

end
